theory Spec2Isabelle
  imports Main "HOL-Library.Word"
begin

unbundle bit_operations_syntax

chapter \<open>HouseTuya: the message codec and the device engine\<close>

text \<open>
  A shallow embedding of \<^verbatim>\<open>housetuya_crypto.c\<close>, \<^verbatim>\<open>housetuya_messages.c\<close>,
  \<^verbatim>\<open>housetuya_model.c\<close> and \<^verbatim>\<open>housetuya_device.c\<close>.

  Conventions.
  \<^item> A byte is an \<open>8 word\<close>, a C \<^verbatim>\<open>int\<close> that is written on the wire a \<open>32 word\<close>.
    The other C integers (lengths, indices, \<^verbatim>\<open>time_t\<close>) are HOL integers: the
    code adds and subtracts small constants to them only.
  \<^item> A \<^verbatim>\<open>char *\<close> that may be null is an \<open>option\<close>; the list holds the characters
    before the terminating NUL.
  \<^item> A function that may leave the bounds of a C object returns \<open>fault + 'a\<close>;
    \<open>Inl\<close> names what the C program did there.
  \<^item> Global variables are the fields of the record \<open>world\<close>; a function that
    changes them returns the new record. Calls to the outside (event log, sockets)
    are appended to the field \<open>trace\<close>, in the order of the calls.
\<close>

section \<open>Common types\<close>

type_synonym byte = "8 word"

datatype fault =
    Read_out_of_bounds
  | Write_out_of_bounds
  | Negative_size int
  | Null_pointer
  | Row_out_of_range int

text \<open>The rest of a function runs when no fault has occurred so far.\<close>

definition and_then :: "fault + 'a \<Rightarrow> ('a \<Rightarrow> fault + 'b) \<Rightarrow> fault + 'b" where
  "and_then r f = (case r of Inl x \<Rightarrow> Inl x | Inr a \<Rightarrow> f a)"

text \<open>\<^verbatim>\<open>TuyaSecret\<close> of \<^verbatim>\<open>housetuya_messages.h\<close>. The field \<^verbatim>\<open>id\<close> is named
  \<open>tuya_id\<close> here, \<open>id\<close> being the identity function of HOL.\<close>

record TuyaSecret =
  tuya_id :: "byte list option"
  key :: "byte list option"
  version :: "byte list option"

section \<open>Bytes, words and C strings\<close>

text \<open>\<^verbatim>\<open>htonl\<close> followed by a store: the four bytes of a word, most significant first.\<close>

definition be32 :: "32 word \<Rightarrow> byte list" where
  "be32 w = [ucast (drop_bit 24 w), ucast (drop_bit 16 w), ucast (drop_bit 8 w), ucast w]"

text \<open>A load followed by \<^verbatim>\<open>ntohl\<close>.\<close>

definition word_be :: "byte list \<Rightarrow> 32 word" where
  "word_be bs = foldl (\<lambda>a b. push_bit 8 a OR ucast b) 0 bs"

text \<open>\<^verbatim>\<open>ntohl(((const int *)raw)[off / 4])\<close> for a byte offset \<open>off\<close>; \<open>raw\<close> is the
  whole array that the pointer points into.\<close>

definition rd32 :: "byte list \<Rightarrow> int \<Rightarrow> fault + 32 word" where
  "rd32 raw off =
     (if 0 \<le> off \<and> off + 4 \<le> int (length raw)
      then Inr (word_be (take 4 (drop (nat off) raw)))
      else Inl Read_out_of_bounds)"

definition bytes_of :: "string \<Rightarrow> byte list" where
  "bytes_of s = map of_char s"

text \<open>\<^verbatim>\<open>printf ("%d", n)\<close> for a C \<^verbatim>\<open>int\<close>.\<close>

function dec_digits :: "int \<Rightarrow> byte list" where
  "dec_digits n =
     (if n < 10 then [of_int (48 + n)] else dec_digits (n div 10) @ [of_int (48 + n mod 10)])"
  by pat_completeness auto
termination
  by (relation "measure nat") auto

definition printf_d :: "32 word \<Rightarrow> byte list" where
  "printf_d n = (if sint n < 0 then 45 # dec_digits (- sint n) else dec_digits (sint n))"

text \<open>\<^verbatim>\<open>strcmp (s, mem) == 0\<close>, where \<open>s\<close> is a C string and \<open>mem\<close> the bytes of an array
  from the second pointer on: the comparison stops at the first difference, or at the
  NUL that ends \<open>s\<close>.\<close>

fun strcmp_eq :: "byte list \<Rightarrow> byte list \<Rightarrow> fault + bool" where
  "strcmp_eq [] [] = Inl Read_out_of_bounds"
| "strcmp_eq [] (m # mem) = Inr (m = 0)"
| "strcmp_eq (c # s) [] = Inl Read_out_of_bounds"
| "strcmp_eq (c # s) (m # mem) = (if c = m then strcmp_eq s mem else Inr False)"

section \<open>The checksum (housetuya\_crc)\<close>

text \<open>
  Modelled from the spec: \<^verbatim>\<open>housetuya_crc.c\<close> is not among the sources; the specification
  describes it as the table-driven CRC-32 of zlib: polynomial \<open>0xEDB88320\<close>
  (bit-reversed), initial value \<open>0xFFFFFFFF\<close>, final exclusive-or with \<open>0xFFFFFFFF\<close>.
\<close>

definition crc_shift :: "32 word \<Rightarrow> 32 word" where
  "crc_shift c = (if bit c 0 then drop_bit 1 c XOR 0xEDB88320 else drop_bit 1 c)"

text \<open>The entry \<open>i\<close> of the table: eight shifts of \<open>i\<close>.\<close>

definition crc_table :: "byte \<Rightarrow> 32 word" where
  "crc_table i =
     crc_shift (crc_shift (crc_shift (crc_shift
       (crc_shift (crc_shift (crc_shift (crc_shift (ucast i))))))))"

definition crc_update :: "byte \<Rightarrow> 32 word \<Rightarrow> 32 word" where
  "crc_update b c = crc_table (ucast c XOR b) XOR drop_bit 8 c"

definition housetuya_crc :: "byte list \<Rightarrow> 32 word" where
  "housetuya_crc data = fold crc_update data 0xFFFFFFFF XOR 0xFFFFFFFF"

section \<open>AES-128-ECB through OpenSSL (housetuya\_crypto.c)\<close>

text \<open>
  The cipher itself is OpenSSL's. It enters the model as two parameters, \<open>E\<close> and \<open>D\<close>:
  \<open>E k b\<close> is the AES-128 encryption of the 16-byte block \<open>b\<close> under the key \<open>k\<close>, and
  \<open>D k b\<close> the decryption. What the theorems need of them is said by \<open>inverts\<close>, on the
  blocks at hand. The calls \<^verbatim>\<open>EVP_CIPHER_CTX_new\<close> and \<^verbatim>\<open>EVP_*Init_ex\<close> are taken
  to succeed.
\<close>

type_synonym block_fun = "byte list \<Rightarrow> byte list \<Rightarrow> byte list"

primrec blocks :: "nat \<Rightarrow> byte list \<Rightarrow> byte list list" where
  "blocks 0 xs = []"
| "blocks (Suc n) xs = take 16 xs # blocks n (drop 16 xs)"

definition ecb :: "(byte list \<Rightarrow> byte list) \<Rightarrow> byte list \<Rightarrow> byte list" where
  "ecb f xs = concat (map f (blocks (length xs div 16) xs))"

definition inverts :: "block_fun \<Rightarrow> block_fun \<Rightarrow> byte list \<Rightarrow> byte list \<Rightarrow> bool" where
  "inverts E D k xs =
     (\<forall>b \<in> set (blocks (length xs div 16) xs). length (E k b) = 16 \<and> D k (E k b) = b)"

text \<open>The padding that \<^verbatim>\<open>EVP_EncryptFinal_ex\<close> adds: \<open>n\<close> bytes of value \<open>n\<close>, \<open>1 \<le> n \<le> 16\<close>.\<close>

definition pkcs7_pad :: "byte list \<Rightarrow> byte list" where
  "pkcs7_pad xs = (let n = 16 - length xs mod 16 in xs @ replicate n (of_nat n))"

text \<open>\<^verbatim>\<open>EVP_EncryptUpdate\<close> and \<^verbatim>\<open>EVP_EncryptFinal_ex\<close>: all the bytes written.\<close>

definition evp_encrypt :: "block_fun \<Rightarrow> byte list \<Rightarrow> byte list \<Rightarrow> byte list" where
  "evp_encrypt E k clear = ecb (E k) (pkcs7_pad clear)"

text \<open>
  \<^verbatim>\<open>EVP_DecryptUpdate\<close> and \<^verbatim>\<open>EVP_DecryptFinal_ex\<close>: \<open>None\<close> when the final call fails
  (the input is empty or not a whole number of blocks, or the last block does not end
  with a padding), else the bytes written, the padding removed.
\<close>

definition evp_decrypt :: "block_fun \<Rightarrow> byte list \<Rightarrow> byte list \<Rightarrow> byte list option" where
  "evp_decrypt D k encrypted =
     (if encrypted = [] \<or> length encrypted mod 16 \<noteq> 0 then None
      else
        let p = ecb (D k) encrypted
        in if p = [] then None
           else
             let n = unat (last p)
             in if n = 0 \<or> n > 16 \<or> n > length p
                   \<or> drop (length p - n) p \<noteq> replicate n (last p) then None
                else Some (take (length p - n) p))"

text \<open>\<^verbatim>\<open>housetuya_encrypt (key, encrypted, clear, length)\<close>: \<open>clear\<close> holds the
  \<^verbatim>\<open>length\<close> bytes to encrypt. The result is what was written to \<^verbatim>\<open>encrypted\<close>; the
  value returned by the C function is its length.\<close>

definition housetuya_encrypt :: "block_fun \<Rightarrow> byte list \<Rightarrow> byte list \<Rightarrow> byte list" where
  "housetuya_encrypt E k clear = evp_encrypt E k clear"

text \<open>
  \<^verbatim>\<open>housetuya_decrypt (key, encrypted, clear, length)\<close>: \<open>encrypted\<close> holds the
  \<^verbatim>\<open>length\<close> bytes to decrypt, and \<open>room\<close> is the size of the array \<^verbatim>\<open>clear\<close>. The
  result is the value returned and the bytes of \<^verbatim>\<open>clear\<close> up to the NUL that the
  function writes.
\<close>

definition housetuya_decrypt ::
  "block_fun \<Rightarrow> byte list \<Rightarrow> int \<Rightarrow> byte list \<Rightarrow> fault + (int \<times> byte list)" where
  "housetuya_decrypt D k room encrypted =
     (case evp_decrypt D k encrypted of
        None \<Rightarrow> Inr (0, [])
      | Some p \<Rightarrow>
          if int (length p) > room then Inl Write_out_of_bounds
          else if p = [] then Inl Read_out_of_bounds
          else
            let clear_length =
                  (if last p > 0 \<and> last p < 16 then int (length p) - uint (last p)
                   else int (length p))
            in if clear_length < 0 \<or> clear_length \<ge> room then Inl Write_out_of_bounds
               else Inr (clear_length, take (nat clear_length) p @ [0]))"

section \<open>The message codec (housetuya\_messages.c)\<close>

definition TUYA_STATUS :: "32 word" where "TUYA_STATUS = 8"
definition TUYA_CONTROL :: "32 word" where "TUYA_CONTROL = 7"
definition TUYA_QUERY :: "32 word" where "TUYA_QUERY = 10"
definition TUYA_UPDATE :: "32 word" where "TUYA_UPDATE = 18"

text \<open>\<^verbatim>\<open>housetuya_start_envelop\<close>: the first 16 bytes of the buffer. The fourth word is
  written later, by \<^verbatim>\<open>housetuya_end_envelop_pre34\<close>; it is 0 here.\<close>

definition housetuya_start_envelop :: "32 word \<Rightarrow> 32 word \<Rightarrow> byte list" where
  "housetuya_start_envelop sequence code = be32 0x000055aa @ be32 sequence @ be32 code @ be32 0"

text \<open>\<^verbatim>\<open>housetuya_end_envelop_pre34 (buffer, length)\<close>: \<open>buffer\<close> holds the \<^verbatim>\<open>length\<close>
  bytes written so far, 16 at least. The value returned is the length of the result.\<close>

definition housetuya_end_envelop_pre34 :: "byte list \<Rightarrow> byte list" where
  "housetuya_end_envelop_pre34 buffer =
     take 12 buffer @ be32 (word_of_int (int (length buffer) - 8)) @ drop 16 buffer
       @ be32 (housetuya_crc (drop 16 buffer)) @ be32 0x0000aa55"

text \<open>The 15 bytes that \<^verbatim>\<open>memset (p, 0, 15); strncpy (p, version, 15)\<close> leave.\<close>

definition extended_header :: "byte list \<Rightarrow> byte list" where
  "extended_header v = take 15 v @ replicate (15 - length v) 0"

text \<open>
  \<^verbatim>\<open>housetuya_encode (buffer, size, access, code, sequence, data)\<close>. The result is the
  value returned and the bytes written to \<^verbatim>\<open>buffer\<close>.
\<close>

definition housetuya_encode ::
  "block_fun \<Rightarrow> int \<Rightarrow> TuyaSecret \<Rightarrow> 32 word \<Rightarrow> 32 word \<Rightarrow> byte list \<Rightarrow> fault + (int \<times> byte list)" where
  "housetuya_encode E bufsize access code sequence data =
     (if int (length data) > bufsize - 15 then Inr (0, [])
      else
        and_then (if code \<noteq> TUYA_QUERY \<and> code \<noteq> TUYA_UPDATE
                  then (case version access of None \<Rightarrow> Inl Null_pointer
                        | Some v \<Rightarrow> Inr (extended_header v))
                  else Inr []) (\<lambda>ext.
        and_then (case key access of None \<Rightarrow> Inl Null_pointer | Some k \<Rightarrow> Inr k) (\<lambda>k.
          let frame = housetuya_end_envelop_pre34
                        (housetuya_start_envelop sequence code @ ext @ housetuya_encrypt E k data)
          in if int (length frame) > bufsize then Inl Write_out_of_bounds
             else Inr (int (length frame), frame))))"

text \<open>\<^verbatim>\<open>snprintf (command, 1024, ...)\<close> keeps 1023 characters at most. \<open>now\<close> is
  \<^verbatim>\<open>(int)time(0)\<close>.\<close>

definition control_command :: "byte list \<Rightarrow> 32 word \<Rightarrow> 32 word \<Rightarrow> int \<Rightarrow> byte list" where
  \<open>control_command ident now dps val =
     take 1023
       (bytes_of ''{"devId":"'' @ ident @ bytes_of ''","uid":"'' @ ident
          @ bytes_of ''","t":"'' @ printf_d now @ bytes_of ''","dps":{"'' @ printf_d dps
          @ bytes_of ''":'' @ (if val \<noteq> 0 then bytes_of ''true'' else bytes_of ''false'')
          @ bytes_of ''}}'')\<close>

definition query_command :: "byte list \<Rightarrow> 32 word \<Rightarrow> byte list" where
  \<open>query_command ident now =
     take 1023
       (bytes_of ''{"devId":"'' @ ident @ bytes_of ''","uid":"'' @ ident
          @ bytes_of ''","t":"'' @ printf_d now @ bytes_of ''"}'')\<close>

definition housetuya_control ::
  "block_fun \<Rightarrow> 32 word \<Rightarrow> int \<Rightarrow> TuyaSecret \<Rightarrow> 32 word \<Rightarrow> 32 word \<Rightarrow> int
     \<Rightarrow> fault + (int \<times> byte list)" where
  "housetuya_control E now bufsize access sequence dps val =
     (case tuya_id access of
        None \<Rightarrow> Inl Null_pointer
      | Some ident \<Rightarrow>
          housetuya_encode E bufsize access TUYA_CONTROL sequence (control_command ident now dps val))"

definition housetuya_query ::
  "block_fun \<Rightarrow> 32 word \<Rightarrow> int \<Rightarrow> TuyaSecret \<Rightarrow> 32 word \<Rightarrow> fault + (int \<times> byte list)" where
  "housetuya_query E now bufsize access sequence =
     (case tuya_id access of
        None \<Rightarrow> Inl Null_pointer
      | Some ident \<Rightarrow>
          housetuya_encode E bufsize access TUYA_QUERY sequence (query_command ident now))"

text \<open>
  What \<^verbatim>\<open>housetuya_open_envelop\<close> gives: the value returned, the offset of \<^verbatim>\<open>*data\<close> in
  the buffer, and \<^verbatim>\<open>*code\<close> and \<^verbatim>\<open>*sequence\<close> where they were written.
\<close>

record opened =
  op_length :: int
  op_data :: int
  op_code :: "32 word option"
  op_sequence :: "32 word option"

definition housetuya_open_envelop :: "byte list option \<Rightarrow> byte list \<Rightarrow> int \<Rightarrow> fault + opened" where
  "housetuya_open_envelop vers buffer len =
     and_then (rd32 buffer 0) (\<lambda>prefix.
       if prefix \<noteq> 0x000055aa
       then Inr \<lparr>op_length = 0, op_data = 0, op_code = None, op_sequence = None\<rparr>
       else
     and_then (rd32 buffer 4) (\<lambda>sq.
     and_then (rd32 buffer 8) (\<lambda>cd.
     and_then (rd32 buffer 12) (\<lambda>payload_length.
       if sint payload_length \<noteq> len - 16
       then Inr \<lparr>op_length = 0, op_data = 0, op_code = Some cd, op_sequence = Some sq\<rparr>
       else
     and_then (rd32 buffer (len - 4)) (\<lambda>suffix.
       if suffix \<noteq> 0x0000aa55
       then Inr \<lparr>op_length = 0, op_data = 0, op_code = Some cd, op_sequence = Some sq\<rparr>
       else
     and_then (rd32 buffer 16) (\<lambda>rc.
       let (data, length1) = (if rc AND 0xffffff00 \<noteq> 0 then (16, len - (16 + 8))
                              else (20, len - (20 + 8)))
       in
     and_then (case vers of None \<Rightarrow> Inr False
               | Some v \<Rightarrow> strcmp_eq v (drop (nat data) buffer)) (\<lambda>same.
       if same
       then Inr \<lparr>op_length = length1 - 15, op_data = data + 15,
                 op_code = Some cd, op_sequence = Some sq\<rparr>
       else Inr \<lparr>op_length = length1, op_data = data,
                 op_code = Some cd, op_sequence = Some sq\<rparr>)))))))"

text \<open>
  What \<^verbatim>\<open>housetuya_extract\<close> gives: the value returned, the first bytes of \<^verbatim>\<open>buffer\<close>
  (as many as the value returned), and \<^verbatim>\<open>*code\<close> and \<^verbatim>\<open>*sequence\<close> where written.
  \<open>raw\<close> is the whole array that holds the message, \<open>len\<close> the length given, and
  \<open>bufsize\<close> the parameter \<^verbatim>\<open>size\<close>.
\<close>

record extracted =
  ex_length :: int
  ex_payload :: "byte list"
  ex_code :: "32 word option"
  ex_sequence :: "32 word option"

definition extract_failed :: "32 word option \<Rightarrow> 32 word option \<Rightarrow> extracted" where
  "extract_failed cd sq = \<lparr>ex_length = 0, ex_payload = [], ex_code = cd, ex_sequence = sq\<rparr>"

text \<open>The \<open>n\<close> bytes from offset \<open>off\<close> of the array \<open>raw\<close>.\<close>

definition mem_read :: "byte list \<Rightarrow> int \<Rightarrow> int \<Rightarrow> fault + byte list" where
  "mem_read raw off n =
     (if 0 \<le> off \<and> 0 \<le> n \<and> off + n \<le> int (length raw)
      then Inr (take (nat n) (drop (nat off) raw))
      else Inl Read_out_of_bounds)"

definition housetuya_extract ::
  "block_fun \<Rightarrow> int \<Rightarrow> TuyaSecret option \<Rightarrow> byte list \<Rightarrow> int \<Rightarrow> fault + extracted" where
  "housetuya_extract D bufsize secr raw len =
     (if len \<le> 0 then Inr (extract_failed None None)
      else
        case secr of
          Some s \<Rightarrow>
            and_then (housetuya_open_envelop (version s) raw len) (\<lambda>opn.
              if op_length opn \<le> 0 then Inr (extract_failed (op_code opn) (op_sequence opn))
              else
            and_then (case key s of None \<Rightarrow> Inl Null_pointer | Some k \<Rightarrow> Inr k) (\<lambda>k.
            and_then (mem_read raw (op_data opn) (op_length opn)) (\<lambda>encrypted.
            and_then (housetuya_decrypt D k bufsize encrypted) (\<lambda>(datalen, clear).
              if datalen \<le> 0 then Inr (extract_failed (op_code opn) (op_sequence opn))
              else Inr \<lparr>ex_length = datalen, ex_payload = take (nat datalen) clear,
                        ex_code = op_code opn, ex_sequence = op_sequence opn\<rparr>))))
        | None \<Rightarrow>
            and_then (housetuya_open_envelop None raw len) (\<lambda>opn.
              let datalen = op_length opn
              in if datalen < 0 then Inl (Negative_size datalen)
                 else
            and_then (mem_read raw (op_data opn) datalen) (\<lambda>bytes.
              if datalen > bufsize then Inl Write_out_of_bounds
              else Inr \<lparr>ex_length = datalen, ex_payload = bytes,
                        ex_code = op_code opn, ex_sequence = op_sequence opn\<rparr>)))"

section \<open>The model registry (housetuya\_model.c)\<close>

record ModelMap =
  model_id :: string
  model_name :: string
  model_control :: int

definition tolower_c :: "char \<Rightarrow> char" where
  "tolower_c c =
     (let n = (of_char c :: nat) in if 65 \<le> n \<and> n \<le> 90 then char_of (n + 32) else c)"

text \<open>\<^verbatim>\<open>strcasecmp (a, b) == 0\<close>.\<close>

definition strcasecmp_eq :: "string \<Rightarrow> string \<Rightarrow> bool" where
  "strcasecmp_eq a b = (map tolower_c a = map tolower_c b)"

text \<open>The loop of \<^verbatim>\<open>housetuya_model_search\<close>, from index \<open>i\<close> on.\<close>

fun model_search_from :: "ModelMap list \<Rightarrow> int \<Rightarrow> string \<Rightarrow> int" where
  "model_search_from [] i ident = -1"
| "model_search_from (m # ms) i ident =
     (if strcasecmp_eq ident (model_id m) then i else model_search_from ms (i + 1) ident)"

definition housetuya_model_search :: "ModelMap list \<Rightarrow> string \<Rightarrow> int" where
  "housetuya_model_search Models ident = model_search_from Models 0 ident"

definition housetuya_model_get_control :: "ModelMap list \<Rightarrow> string \<Rightarrow> int" where
  "housetuya_model_get_control Models ident =
     (let i = housetuya_model_search Models ident
      in if i < 0 then 0 else model_control (Models ! nat i))"

section \<open>The device table (housetuya\_device.c)\<close>

record DeviceMap =
  name :: string
  secret :: TuyaSecret
  model :: string
  description :: "string option"
  ipaddress :: int
  host :: "string option"
  detected :: int
  socket :: int
  encrypted :: int
  status :: int
  commanded :: int
  pending :: int
  deadline :: int
  last_sense :: int
  out :: "byte list"
  outlength :: int
  control :: int

datatype callback = Cb_send | Cb_receive

text \<open>
  What the device module does to the outside. \<open>Event n a\<close> is
  \<^verbatim>\<open>houselog_event ("DEVICE", n, a, ...)\<close> (the free text of the event is left out).
  \<open>Sending_query\<close> and \<open>Sending_control\<close> are the two \<^verbatim>\<open>houselog_trace\<close> lines
  "Sending QUERY to" and "Sending CONTROL %d to": each is written where a frame has
  just been staged in \<^verbatim>\<open>out\<close>, and stands for that staging (the C program writes the
  line in debug mode only).
\<close>

datatype action =
    Event string string
  | Forget int
  | Close int
  | Connect "string option" int
  | Listen int int callback
  | Write int "byte list"
  | Sending_query "byte list option"
  | Sending_control int "byte list option"

text \<open>
  The collaborators of the device module: \<^verbatim>\<open>echttp_connect (host, "6668")\<close>, the
  table of \<^verbatim>\<open>housetuya_model.c\<close>, and the two encoders of \<^verbatim>\<open>housetuya_messages.c\<close>
  as called here, \<^verbatim>\<open>housetuya_query (out, 1024, secret, 0)\<close> and
  \<^verbatim>\<open>housetuya_control (out, 1024, secret, 0, dps, state)\<close>, each giving the returned
  length and the bytes left in \<^verbatim>\<open>out\<close>.
\<close>

record env =
  echttp_connect :: "string option \<Rightarrow> int"
  Models :: "ModelMap list"
  query_frame :: "TuyaSecret \<Rightarrow> int \<times> byte list"
  control_frame :: "TuyaSecret \<Rightarrow> int \<Rightarrow> int \<Rightarrow> int \<times> byte list"

record world =
  Devices :: "DeviceMap list"
  LastRetry :: int
  trace :: "action list"

definition DevicesCount :: "world \<Rightarrow> int" where
  "DevicesCount w = int (length (Devices w))"

text \<open>\<^verbatim>\<open>Devices[i]\<close>: the rows \<open>0 .. DevicesCount - 1\<close> exist.\<close>

definition row :: "world \<Rightarrow> int \<Rightarrow> fault + DeviceMap" where
  "row w i = (if 0 \<le> i \<and> i < DevicesCount w then Inr (Devices w ! nat i)
              else Inl (Row_out_of_range i))"

definition housetuya_device_count :: "world \<Rightarrow> int" where
  "housetuya_device_count w = DevicesCount w"

text \<open>The five accessors. A null pointer result is \<open>None\<close>.\<close>

definition housetuya_device_name :: "world \<Rightarrow> int \<Rightarrow> fault + string option" where
  "housetuya_device_name w point =
     (if point < 0 \<or> point > DevicesCount w then Inr None
      else case row w point of Inl f \<Rightarrow> Inl f | Inr d \<Rightarrow> Inr (Some (name d)))"

definition housetuya_device_commanded :: "world \<Rightarrow> int \<Rightarrow> fault + int" where
  "housetuya_device_commanded w point =
     (if point < 0 \<or> point > DevicesCount w then Inr 0
      else case row w point of Inl f \<Rightarrow> Inl f | Inr d \<Rightarrow> Inr (commanded d))"

definition housetuya_device_deadline :: "world \<Rightarrow> int \<Rightarrow> fault + int" where
  "housetuya_device_deadline w point =
     (if point < 0 \<or> point > DevicesCount w then Inr 0
      else case row w point of Inl f \<Rightarrow> Inl f | Inr d \<Rightarrow> Inr (deadline d))"

definition housetuya_device_failure :: "world \<Rightarrow> int \<Rightarrow> fault + string option" where
  "housetuya_device_failure w point =
     (if point < 0 \<or> point > DevicesCount w then Inr None
      else case row w point of Inl f \<Rightarrow> Inl f
           | Inr d \<Rightarrow> if detected d = 0 then Inr (Some ''silent'') else Inr None)"

definition housetuya_device_get :: "world \<Rightarrow> int \<Rightarrow> fault + int" where
  "housetuya_device_get w point =
     (if point < 0 \<or> point > DevicesCount w then Inr 0
      else case row w point of Inl f \<Rightarrow> Inl f | Inr d \<Rightarrow> Inr (status d))"

text \<open>The loop of \<^verbatim>\<open>housetuya_device_socket_search\<close>, from index \<open>i\<close> on.\<close>

fun socket_search_from :: "DeviceMap list \<Rightarrow> int \<Rightarrow> int \<Rightarrow> int" where
  "socket_search_from [] i s = -1"
| "socket_search_from (d # ds) i s =
     (if socket d = s then i else socket_search_from ds (i + 1) s)"

definition housetuya_device_socket_search :: "world \<Rightarrow> int \<Rightarrow> int" where
  "housetuya_device_socket_search w s = socket_search_from (Devices w) 0 s"

text \<open>
  The functions below work on one row, \<^verbatim>\<open>Devices[i]\<close> for an index \<open>i\<close> that their
  callers have taken from the table: they take the row and the trace and return both.
\<close>

definition housetuya_device_close :: "DeviceMap \<Rightarrow> action list \<Rightarrow> DeviceMap \<times> action list" where
  "housetuya_device_close d tr =
     (if socket d \<ge> 0
      then (d\<lparr>socket := -1, outlength := 0\<rparr>, tr @ [Forget (socket d), Close (socket d)])
      else (d, tr))"

definition housetuya_device_reset ::
  "DeviceMap \<Rightarrow> int \<Rightarrow> action list \<Rightarrow> DeviceMap \<times> action list" where
  "housetuya_device_reset d st tr =
     housetuya_device_close (d\<lparr>status := st, commanded := st, deadline := 0, pending := 0\<rparr>) tr"

text \<open>\<^verbatim>\<open>housetuya_device_status_update\<close> on the row, \<open>now\<close> being \<^verbatim>\<open>time(0)\<close>.\<close>

definition status_update_row ::
  "int \<Rightarrow> int \<Rightarrow> DeviceMap \<Rightarrow> action list \<Rightarrow> DeviceMap \<times> action list" where
  "status_update_row now st d tr =
     (let (d1, tr1) =
        (if st \<noteq> status d then
           (if pending d \<noteq> 0 \<and> st = commanded d
            then (d\<lparr>pending := 0\<rparr>\<lparr>status := st\<rparr>, tr @ [Event (name d) ''CONFIRMED''])
            else (d\<lparr>commanded := st, pending := 0\<rparr>\<lparr>status := st\<rparr>,
                  tr @ [Event (name d) ''CHANGED'']))
         else (d, tr))
      in (d1\<lparr>detected := now\<rparr>, tr1))"

definition set_row :: "world \<Rightarrow> int \<Rightarrow> DeviceMap \<times> action list \<Rightarrow> world" where
  "set_row w i r = w\<lparr>Devices := (Devices w)[nat i := fst r], trace := snd r\<rparr>"

definition housetuya_device_status_update :: "world \<Rightarrow> int \<Rightarrow> int \<Rightarrow> int \<Rightarrow> fault + world" where
  "housetuya_device_status_update w device st now =
     (if device < 0 then Inr w
      else case row w device of
             Inl f \<Rightarrow> Inl f
           | Inr d \<Rightarrow> Inr (set_row w device (status_update_row now st d (trace w))))"

text \<open>\<^verbatim>\<open>housetuya_device_preamble\<close>: the flag tells whether a row pointer was returned.\<close>

definition housetuya_device_preamble ::
  "env \<Rightarrow> DeviceMap \<Rightarrow> action list \<Rightarrow> bool \<times> DeviceMap \<times> action list" where
  "housetuya_device_preamble e d tr =
     (if ipaddress d = 0 then (False, d, tr)
      else if encrypted d \<noteq> 0 \<and> tuya_id (secret d) = None then (False, d, tr)
      else
        let d1 = (if control d \<le> 0
                  then d\<lparr>control := housetuya_model_get_control (Models e) (model d)\<rparr>
                  else d)
        in if control d1 \<le> 0 then (False, d1, tr)
           else
             let (d2, tr2) = housetuya_device_close d1 tr;
                 s = echttp_connect e (host d2);
                 d3 = d2\<lparr>socket := s\<rparr>;
                 tr3 = tr2 @ [Connect (host d2) s]
             in if s < 0 then (False, d3, tr3) else (True, d3, tr3))"

definition housetuya_device_sense ::
  "env \<Rightarrow> DeviceMap \<Rightarrow> action list \<Rightarrow> DeviceMap \<times> action list" where
  "housetuya_device_sense e d tr =
     (case housetuya_device_preamble e d tr of
        (False, d1, tr1) \<Rightarrow> (d1, tr1)
      | (True, d1, tr1) \<Rightarrow>
          let (n, bytes) = query_frame e (secret d1)
          in (d1\<lparr>out := bytes, outlength := n\<rparr>,
              tr1 @ [Sending_query (tuya_id (secret d1)), Listen (socket d1) 2 Cb_send]))"

definition housetuya_device_control ::
  "env \<Rightarrow> DeviceMap \<Rightarrow> int \<Rightarrow> action list \<Rightarrow> DeviceMap \<times> action list" where
  "housetuya_device_control e d state tr =
     (case housetuya_device_preamble e d tr of
        (False, d1, tr1) \<Rightarrow> (d1, tr1)
      | (True, d1, tr1) \<Rightarrow>
          let (n, bytes) = control_frame e (secret d1) (control d1) state
          in (d1\<lparr>out := bytes, outlength := n\<rparr>,
              tr1 @ [Sending_control state (tuya_id (secret d1)), Listen (socket d1) 2 Cb_send]))"

text \<open>\<^verbatim>\<open>housetuya_device_set\<close> past its index guard, on the row.\<close>

definition set_on_row ::
  "env \<Rightarrow> int \<Rightarrow> int \<Rightarrow> int \<Rightarrow> DeviceMap \<Rightarrow> action list \<Rightarrow> int \<times> DeviceMap \<times> action list" where
  "set_on_row e now state pulse d tr =
     (let d1 = (if pulse > 0 then d\<lparr>deadline := now + pulse\<rparr> else d\<lparr>deadline := 0\<rparr>);
          tr1 = tr @ [Event (name d) ''SET''];
          d2 = d1\<lparr>commanded := state\<rparr>
      in if pending d2 \<noteq> 0 then (1, d2, tr1)
         else
           let d3 = d2\<lparr>pending := now + 10\<rparr>
           in if detected d3 \<noteq> 0
              then (let (d4, tr4) = housetuya_device_control e d3 state tr1 in (0, d4, tr4))
              else (0, d3, tr1))"

definition housetuya_device_set ::
  "env \<Rightarrow> int \<Rightarrow> world \<Rightarrow> int \<Rightarrow> int \<Rightarrow> int \<Rightarrow> fault + (int \<times> world)" where
  "housetuya_device_set e now w device state pulse =
     (if device < 0 \<or> device > DevicesCount w then Inr (0, w)
      else case row w device of
             Inl f \<Rightarrow> Inl f
           | Inr d \<Rightarrow>
               (case set_on_row e now state pulse d (trace w) of
                  (r, d', tr') \<Rightarrow> Inr (r, set_row w device (d', tr'))))"

text \<open>The body of the loop of \<^verbatim>\<open>housetuya_device_periodic\<close>, for the row \<open>d\<close>, in
  four steps: sense, silence, end of pulse, retry or timeout.\<close>

definition visit_sense :: "env \<Rightarrow> int \<Rightarrow> DeviceMap \<Rightarrow> action list \<Rightarrow> DeviceMap \<times> action list" where
  "visit_sense e now d tr =
     (if now \<ge> last_sense d + 35 then
        (let (d1, tr1) =
           (if pending d = 0 \<and> ipaddress d \<noteq> 0
            then (let (c, trc) = housetuya_device_close d tr in housetuya_device_sense e c trc)
            else (d, tr))
         in (d1\<lparr>last_sense := now\<rparr>, tr1))
      else (d, tr))"

definition visit_silent :: "int \<Rightarrow> DeviceMap \<Rightarrow> action list \<Rightarrow> DeviceMap \<times> action list" where
  "visit_silent now d tr =
     (if detected d > 0 \<and> detected d < now - 100 then
        (let (d1, tr1) = housetuya_device_close d (tr @ [Event (name d) ''SILENT'']);
             (d2, tr2) = housetuya_device_reset d1 0 tr1
         in (d2\<lparr>detected := 0\<rparr>, tr2))
      else (d, tr))"

definition visit_pulse :: "int \<Rightarrow> DeviceMap \<Rightarrow> action list \<Rightarrow> DeviceMap \<times> action list" where
  "visit_pulse now d tr =
     (if deadline d > 0 \<and> now \<ge> deadline d
      then (d\<lparr>commanded := 0, pending := now + 5, deadline := 0\<rparr>, tr @ [Event (name d) ''RESET''])
      else (d, tr))"

definition visit_retry :: "env \<Rightarrow> int \<Rightarrow> DeviceMap \<Rightarrow> action list \<Rightarrow> DeviceMap \<times> action list" where
  "visit_retry e now d tr =
     (if status d \<noteq> commanded d then
        (if pending d > now then
           (if detected d \<noteq> 0
            then housetuya_device_control e d (commanded d) (tr @ [Event (name d) ''RETRY''])
            else (d, tr))
         else if pending d \<noteq> 0 then
           (let (d1, tr1) = housetuya_device_close d (tr @ [Event (name d) ''TIMEOUT''])
            in housetuya_device_reset d1 (status d1) tr1)
         else (d, tr))
      else (d, tr))"

definition periodic_visit :: "env \<Rightarrow> int \<Rightarrow> DeviceMap \<Rightarrow> action list \<Rightarrow> DeviceMap \<times> action list" where
  "periodic_visit e now d tr =
     (let (d1, tr1) = visit_sense e now d tr;
          (d2, tr2) = visit_silent now d1 tr1;
          (d3, tr3) = visit_pulse now d2 tr2
      in visit_retry e now d3 tr3)"

text \<open>The loop itself, over the rows in index order.\<close>

fun periodic_loop ::
  "env \<Rightarrow> int \<Rightarrow> DeviceMap list \<Rightarrow> action list \<Rightarrow> DeviceMap list \<times> action list" where
  "periodic_loop e now [] tr = ([], tr)"
| "periodic_loop e now (d # ds) tr =
     (let (d', tr') = periodic_visit e now d tr;
          (ds', tr'') = periodic_loop e now ds tr'
      in (d' # ds', tr''))"

definition housetuya_device_periodic :: "env \<Rightarrow> int \<Rightarrow> world \<Rightarrow> world" where
  "housetuya_device_periodic e now w =
     (if now < LastRetry w + 5 then w
      else let (ds, tr) = periodic_loop e now (Devices w) (trace w)
           in w\<lparr>Devices := ds, LastRetry := now, trace := tr\<rparr>)"

text \<open>\<^verbatim>\<open>housetuya_device_send\<close>, the callback of a socket that became writable.\<close>

definition housetuya_device_send :: "world \<Rightarrow> int \<Rightarrow> world" where
  "housetuya_device_send w fd =
     (let device = housetuya_device_socket_search w fd
      in if device < 0 then w\<lparr>trace := trace w @ [Forget fd, Close fd]\<rparr>
         else
           let d = Devices w ! nat device;
               (d1, tr1) = (if outlength d > 0
                            then (d\<lparr>outlength := 0\<rparr>,
                                  trace w @ [Write fd (take (nat (outlength d)) (out d))])
                            else (d, trace w))
           in set_row w device (d1, tr1 @ [Listen fd 1 Cb_receive]))"

text \<open>
  \<^verbatim>\<open>housetuya_device_receive\<close>, the callback of a socket that became readable. What came
  in is given by what the callback learns of it: the result of \<^verbatim>\<open>read\<close>, the code and the
  length that \<^verbatim>\<open>housetuya_extract\<close> gives, and the outcome of the JSON search for
  \<^verbatim>\<open>.dps.<control>\<close>.
\<close>

datatype json_item = Json_error | Json_missing | Json_not_bool | Json_bool int

record received =
  read_length :: int
  extract_code :: int
  extract_length :: int
  dps_item :: json_item

definition housetuya_device_receive :: "world \<Rightarrow> int \<Rightarrow> received \<Rightarrow> int \<Rightarrow> world" where
  "housetuya_device_receive w fd rx now =
     (let device = housetuya_device_socket_search w fd
      in if device < 0 then w\<lparr>trace := trace w @ [Forget fd, Close fd]\<rparr>
         else
           let d = Devices w ! nat device
           in if read_length rx \<le> 0 then set_row w device (housetuya_device_close d (trace w))
              else if extract_code rx = 7 then w
              else if extract_length rx \<le> 4 then w
              else
                let (d1, tr1) = housetuya_device_close d (trace w)
                in if extract_code rx \<noteq> 8 \<and> extract_code rx \<noteq> 10 then set_row w device (d1, tr1)
                   else case dps_item rx of
                          Json_bool b \<Rightarrow> set_row w device (status_update_row now b d1 tr1)
                        | _ \<Rightarrow> set_row w device (d1, tr1))"

text \<open>The callbacks that the reactor runs, one at a time.\<close>

datatype callback_event =
    Ev_periodic int
  | Ev_set int int int int
  | Ev_send int
  | Ev_receive int received int

fun run_event :: "env \<Rightarrow> world \<Rightarrow> callback_event \<Rightarrow> fault + world" where
  "run_event e w (Ev_periodic now) = Inr (housetuya_device_periodic e now w)"
| "run_event e w (Ev_set device state pulse now) =
     (case housetuya_device_set e now w device state pulse of
        Inl f \<Rightarrow> Inl f | Inr (r, w') \<Rightarrow> Inr w')"
| "run_event e w (Ev_send fd) = Inr (housetuya_device_send w fd)"
| "run_event e w (Ev_receive fd rx now) = Inr (housetuya_device_receive w fd rx now)"

fun run_events :: "env \<Rightarrow> world \<Rightarrow> callback_event list \<Rightarrow> fault + world" where
  "run_events e w [] = Inr w"
| "run_events e w (ev # evs) =
     (case run_event e w ev of Inl f \<Rightarrow> Inl f | Inr w' \<Rightarrow> run_events e w' evs)"

section \<open>Notions for the statements\<close>

text \<open>The layout of a frame whose bytes between the header and the trailer are \<open>body\<close>.\<close>

definition frame_of :: "32 word \<Rightarrow> 32 word \<Rightarrow> byte list \<Rightarrow> byte list" where
  "frame_of sq cd body =
     be32 0x000055aa @ be32 sq @ be32 cd @ be32 (word_of_int (int (length body) + 8))
       @ body @ be32 (housetuya_crc body) @ be32 0x0000aa55"

text \<open>The frames that \<^verbatim>\<open>housetuya_control\<close> and \<^verbatim>\<open>housetuya_query\<close> make of a command
  \<open>cmd\<close>, with the key \<open>k\<close>, the version \<open>v\<close> and the sequence number \<open>sq\<close>.\<close>

definition encoded_control ::
  "block_fun \<Rightarrow> byte list \<Rightarrow> byte list \<Rightarrow> 32 word \<Rightarrow> byte list \<Rightarrow> byte list" where
  "encoded_control E k v sq cmd =
     frame_of sq TUYA_CONTROL (extended_header v @ housetuya_encrypt E k cmd)"

definition encoded_query :: "block_fun \<Rightarrow> byte list \<Rightarrow> 32 word \<Rightarrow> byte list \<Rightarrow> byte list" where
  "encoded_query E k sq cmd = frame_of sq TUYA_QUERY (housetuya_encrypt E k cmd)"

text \<open>The three checks of \<^verbatim>\<open>housetuya_open_envelop\<close> (prefix, length, suffix) pass.\<close>

definition envelop_checks :: "byte list \<Rightarrow> int \<Rightarrow> bool" where
  "envelop_checks buffer len =
     (rd32 buffer 0 = Inr 0x000055aa \<and> map_sum (\<lambda>f. f) sint (rd32 buffer 12) = Inr (len - 16)
      \<and> rd32 buffer (len - 4) = Inr 0x0000aa55)"

text \<open>Where the payload starts: after the header, or after a return code.\<close>

definition payload_start :: "byte list \<Rightarrow> int" where
  "payload_start buffer = (if word_be (take 4 (drop 16 buffer)) AND 0xffffff00 \<noteq> 0 then 16 else 20)"

text \<open>The extended header as the decoder looks for it: the characters of the version
  and the NUL after them, at the start of the payload as received.\<close>

definition header_found :: "byte list \<Rightarrow> byte list \<Rightarrow> bool" where
  "header_found v buffer =
     (take (length v + 1) (drop (nat (payload_start buffer)) buffer) = v @ [0])"

text \<open>The extended header as C9 words it: the first 15 bytes of the decrypted payload
  are the version string (in its field of 15 bytes).\<close>

definition spec_header_present ::
  "block_fun \<Rightarrow> byte list \<Rightarrow> byte list \<Rightarrow> byte list \<Rightarrow> int \<Rightarrow> bool" where
  "spec_header_present D k v buffer len =
     (case evp_decrypt D k
             (take (nat (len - payload_start buffer - 8)) (drop (nat (payload_start buffer)) buffer)) of
        None \<Rightarrow> False
      | Some p \<Rightarrow> take 15 p = extended_header v)"

text \<open>The checksum as C2 words it: over the bytes between the prefix and the field.\<close>

definition spec_crc :: "byte list \<Rightarrow> 32 word" where
  "spec_crc frame = housetuya_crc (take (length frame - 12) (drop 4 frame))"

text \<open>The \<^verbatim>\<open>Sending CONTROL\<close> lines of a trace.\<close>

fun is_control :: "action \<Rightarrow> bool" where
  "is_control (Sending_control state ident) = True"
| "is_control a = False"

definition controls :: "action list \<Rightarrow> action list" where
  "controls tr = filter is_control tr"

text \<open>The two callers of \<^verbatim>\<open>housetuya_device_control\<close>, as steps on one row: a visit of
  the sweep at a time, and a set with a state, a pulse and a time.\<close>

datatype row_step = Visit int | Set int int int

fun run_row_step :: "env \<Rightarrow> DeviceMap \<times> action list \<Rightarrow> row_step \<Rightarrow> DeviceMap \<times> action list" where
  "run_row_step e (d, tr) (Visit now) = periodic_visit e now d tr"
| "run_row_step e (d, tr) (Set state pulse now) =
     (case set_on_row e now state pulse d tr of (r, d', tr') \<Rightarrow> (d', tr'))"

definition run_row_steps ::
  "env \<Rightarrow> DeviceMap \<times> action list \<Rightarrow> row_step list \<Rightarrow> DeviceMap \<times> action list" where
  "run_row_steps e r steps = foldl (run_row_step e) r steps"

section \<open>A cipher, a secret and a table for the examples\<close>

text \<open>In the examples, and only there, the exclusive or with the key stands for AES.\<close>

definition example_cipher :: block_fun where
  "example_cipher k b = map2 (XOR) k b"

definition example_key :: "byte list" where
  "example_key = bytes_of ''0123456789abcdef''"

definition example_query_frame :: "byte list" where
  "example_query_frame =
     encoded_query example_cipher example_key 0 (query_command (bytes_of ''bf12'') 1700000000)"

definition example_control_frame :: "byte list" where
  "example_control_frame =
     encoded_control example_cipher example_key (bytes_of ''3.3'') 0
       (control_command (bytes_of ''bf12'') 1700000000 1 1)"

definition example_secret :: TuyaSecret where
  "example_secret =
     \<lparr>tuya_id = Some (bytes_of ''bf12''), key = Some example_key, version = Some (bytes_of ''3.3'')\<rparr>"

definition example_env :: env where
  "example_env =
     \<lparr>echttp_connect = (\<lambda>h. 5),
      Models = [\<lparr>model_id = ''keyA'', model_name = ''Plug'', model_control = 1\<rparr>],
      query_frame = (\<lambda>s. (0, [])),
      control_frame = (\<lambda>s dps state. (0, []))\<rparr>"

definition lamp :: DeviceMap where
  "lamp =
     \<lparr>name = ''lamp'',
      secret = example_secret,
      model = ''keyA'', description = None, ipaddress = 167772167, host = Some ''10.0.0.7'',
      detected = 1000, socket = -1, encrypted = 1, status = 1, commanded = 1, pending = 0,
      deadline = 1150, last_sense = 1190, out = [], outlength = 0, control = 1\<rparr>"

definition example_world :: world where
  "example_world = \<lparr>Devices = [lamp], LastRetry = 1195, trace = []\<rparr>"

chapter \<open>Properties\<close>

section \<open>Blocks, padding and the cipher\<close>


lemma blocks_length:
  "16 * n \<le> length xs \<Longrightarrow> b \<in> set (blocks n xs) \<Longrightarrow> length b = 16"
proof (induction n arbitrary: xs)
  case 0
  then show ?case by simp
next
  case (Suc n)
  from Suc.prems(2) consider "b = take 16 xs" | "b \<in> set (blocks n (drop 16 xs))"
    by auto
  then show ?case
  proof cases
    case 1
    with Suc.prems(1) show ?thesis by simp
  next
    case 2
    from Suc.prems(1) have "16 * n \<le> length (drop 16 xs)" by simp
    from Suc.IH [OF this 2] show ?thesis .
  qed
qed

lemma concat_blocks: "concat (blocks n xs) = take (16 * n) xs"
proof (induction n arbitrary: xs)
  case 0
  show ?case by simp
next
  case (Suc n)
  have "take 16 xs @ take (16 * n) (drop 16 xs) = take (16 + 16 * n) xs"
    by (simp add: take_add)
  with Suc show ?case by simp
qed

lemma blocks_concat:
  "\<forall>b \<in> set bs. length b = 16 \<Longrightarrow> blocks (length bs) (concat bs) = bs"
  by (induction bs) auto

lemma length_concat_16:
  "\<forall>b \<in> set bs. length b = 16 \<Longrightarrow> length (concat bs) = 16 * length bs"
  by (induction bs) auto

lemma length_blocks: "length (blocks n xs) = n"
  by (induction n arbitrary: xs) auto

lemma ecb_length:
  assumes "inverts E D k xs"
  shows "length (ecb (E k) xs) = 16 * (length xs div 16)"
proof -
  have "\<forall>b \<in> set (map (E k) (blocks (length xs div 16) xs)). length b = 16"
    using assms by (auto simp: inverts_def)
  from length_concat_16 [OF this] show ?thesis
    by (simp add: ecb_def length_blocks)
qed

lemma ecb_inverse:
  assumes inv: "inverts E D k xs" and whole: "length xs mod 16 = 0"
  shows "ecb (D k) (ecb (E k) xs) = xs"
proof -
  let ?B = "blocks (length xs div 16) xs"
  have len: "\<forall>b \<in> set (map (E k) ?B). length b = 16"
    using inv by (auto simp: inverts_def)
  have "length (ecb (E k) xs) div 16 = length (map (E k) ?B)"
    using ecb_length [OF inv] by (simp add: length_blocks)
  then have "blocks (length (ecb (E k) xs) div 16) (ecb (E k) xs) = map (E k) ?B"
    using blocks_concat [OF len] by (simp add: ecb_def)
  then have "ecb (D k) (ecb (E k) xs) = concat (map (D k) (map (E k) ?B))"
    by (simp add: ecb_def)
  also have "map (D k) (map (E k) ?B) = ?B"
    using inv by (auto simp: inverts_def intro: map_idI)
  also have "concat ?B = xs"
  proof -
    have "16 * (length xs div 16) = length xs" using whole by presburger
    then show ?thesis by (simp add: concat_blocks)
  qed
  finally show ?thesis .
qed

lemma pad_count: "0 < 16 - length xs mod 16" "16 - length xs mod 16 \<le> 16"
  by simp_all

lemma length_pkcs7_pad: "length (pkcs7_pad xs) mod 16 = 0"
proof -
  have "(length xs + (16 - length xs mod 16)) mod 16 = 0"
    by presburger
  then show ?thesis by (simp add: pkcs7_pad_def Let_def)
qed

lemma pkcs7_pad_not_Nil: "pkcs7_pad xs \<noteq> []"
  by (simp add: pkcs7_pad_def Let_def)

lemma unat_pad_byte: "0 < n \<Longrightarrow> n \<le> 16 \<Longrightarrow> unat (of_nat n :: byte) = n"
  by (simp add: unat_of_nat)

lemma evp_round_trip:
  assumes inv: "inverts E D k (pkcs7_pad p)"
  shows "evp_decrypt D k (evp_encrypt E k p) = Some p"
proof -
  define n where "n = 16 - length p mod 16"
  let ?q = "pkcs7_pad p"
  have q: "?q = p @ replicate n (of_nat n)" by (simp add: pkcs7_pad_def Let_def n_def)
  have n: "0 < n" "n \<le> 16" by (simp_all add: n_def)
  have len: "length (ecb (E k) ?q) = length ?q"
    using ecb_length [OF inv] length_pkcs7_pad [of p] by presburger
  have round: "ecb (D k) (ecb (E k) ?q) = ?q"
    by (rule ecb_inverse [OF inv length_pkcs7_pad])
  have lastq: "last ?q = of_nat n" using n by (simp add: q)
  have un: "unat (last ?q) = n" using n by (simp add: lastq unat_pad_byte)
  have d: "drop (length ?q - n) ?q = replicate n (last ?q)"
    by (simp add: lastq) (simp add: q)
  have t: "take (length ?q - n) ?q = p" by (simp add: q)
  have ne: "ecb (E k) ?q \<noteq> []" using len pkcs7_pad_not_Nil [of p] by auto
  have "n \<le> length ?q" by (simp add: q)
  then show ?thesis
    unfolding evp_decrypt_def evp_encrypt_def
    using n ne len length_pkcs7_pad [of p] pkcs7_pad_not_Nil [of p]
    by (simp add: round un d t Let_def)
qed

lemma decrypt_encrypt:
  assumes inv: "inverts E D k (pkcs7_pad p)"
    and ne: "p \<noteq> []" and tail: "\<not> (0 < last p \<and> last p < 16)"
    and room: "int (length p) < room"
  shows "housetuya_decrypt D k room (housetuya_encrypt E k p) = Inr (int (length p), p @ [0])"
  using ne tail room
  by (auto simp add: housetuya_decrypt_def housetuya_encrypt_def evp_round_trip [OF inv])




lemma word_be_be32: "word_be (be32 w) = w"
proof (rule bit_word_eqI)
  fix n assume "n < LENGTH(32)"
  then have n: "n < 32" by simp
  consider "n < 8" | "8 \<le> n" "n < 16" | "16 \<le> n" "n < 24" | "24 \<le> n" "n < 32"
    using n by linarith
  then show "bit (word_be (be32 w)) n = bit w n"
    by cases (auto simp add: word_be_def be32_def bit_simps)
qed

lemma high_mask: "(0xffffff00 :: 32 word) = NOT (mask 8)"
  by (simp add: mask_eq_exp_minus_1)

lemma bit_word_be:
  "bit (word_be [a, b, c, d]) n =
     (n < 8 \<and> bit d n \<or> 8 \<le> n \<and> n < 16 \<and> bit c (n - 8)
      \<or> 16 \<le> n \<and> n < 24 \<and> bit b (n - 16) \<or> 24 \<le> n \<and> n < 32 \<and> bit a (n - 24))"
  by (auto simp add: word_be_def bit_simps dest: bit_imp_le_length)

lemma high_bytes: "(word_be [a, b, c, d] AND 0xffffff00 = 0) = (a = 0 \<and> b = 0 \<and> c = 0)"
proof
  assume z: "word_be [a, b, c, d] AND 0xffffff00 = 0"
  have "\<not> bit (word_be [a, b, c, d]) n" if "8 \<le> n" "n < 32" for n
  proof -
    have "\<not> bit (word_be [a, b, c, d] AND 0xffffff00) n" by (simp add: z)
    then show ?thesis using that unfolding high_mask by (simp add: bit_simps)
  qed
  note nb = this
  have "a = 0"
  proof (rule bit_word_eqI)
    fix n assume "n < LENGTH(8)"
    then have "\<not> bit (word_be [a, b, c, d]) (n + 24)" by (intro nb) simp_all
    then show "bit a n = bit (0 :: byte) n" using \<open>n < LENGTH(8)\<close> by (simp add: bit_word_be)
  qed
  moreover have "b = 0"
  proof (rule bit_word_eqI)
    fix n assume "n < LENGTH(8)"
    then have "\<not> bit (word_be [a, b, c, d]) (n + 16)" by (intro nb) simp_all
    then show "bit b n = bit (0 :: byte) n" using \<open>n < LENGTH(8)\<close> by (simp add: bit_word_be)
  qed
  moreover have "c = 0"
  proof (rule bit_word_eqI)
    fix n assume "n < LENGTH(8)"
    then have "\<not> bit (word_be [a, b, c, d]) (n + 8)" by (intro nb) simp_all
    then show "bit c n = bit (0 :: byte) n" using \<open>n < LENGTH(8)\<close> by (simp add: bit_word_be)
  qed
  ultimately show "a = 0 \<and> b = 0 \<and> c = 0" by simp
next
  assume "a = 0 \<and> b = 0 \<and> c = 0"
  then show "word_be [a, b, c, d] AND 0xffffff00 = 0"
    unfolding high_mask
    by (intro bit_word_eqI) (auto simp add: bit_simps bit_word_be)
qed


lemma and_then_Inr: "and_then (Inr a) f = f a"
  by (simp add: and_then_def)

lemma length_be32: "length (be32 w) = 4"
  by (simp add: be32_def)

lemma rd32_at: "rd32 (a @ be32 w @ b) (int (length a)) = Inr w"
  by (simp add: rd32_def word_be_be32 length_be32)

lemma rd32_0: "rd32 (be32 w @ b) 0 = Inr w"
  using rd32_at [of "[]" w b] by simp

lemma rd32_4: "rd32 (be32 w0 @ be32 w @ b) 4 = Inr w"
  using rd32_at [of "be32 w0" w b] by (simp add: length_be32)

lemma rd32_8: "rd32 (be32 w0 @ be32 w1 @ be32 w @ b) 8 = Inr w"
  using rd32_at [of "be32 w0 @ be32 w1" w b] by (simp add: length_be32)

lemma rd32_12: "rd32 (be32 w0 @ be32 w1 @ be32 w2 @ be32 w @ b) 12 = Inr w"
  using rd32_at [of "be32 w0 @ be32 w1 @ be32 w2" w b] by (simp add: length_be32)

lemma rd32_16:
  "4 \<le> length body \<Longrightarrow>
   rd32 (be32 w0 @ be32 w1 @ be32 w2 @ be32 w3 @ body @ b) 16 = Inr (word_be (take 4 body))"
  by (simp add: rd32_def length_be32)

lemma sint_small: "0 \<le> i \<Longrightarrow> i < 2 ^ 31 \<Longrightarrow> sint (word_of_int i :: 32 word) = i"
  by (simp only: sint_sbintrunc') (simp add: signed_take_bit_int_eq_self)

lemma strcmp_eq_prefix:
  "0 \<notin> set v \<Longrightarrow> 0 \<in> set mem \<Longrightarrow>
   strcmp_eq v mem = Inr (take (length v + 1) mem = v @ [0])"
proof (induction v mem rule: strcmp_eq.induct)
  case 1
  then show ?case by simp
next
  case (2 m mem)
  then show ?case by simp
next
  case (3 c s)
  then show ?case by simp
next
  case (4 c s m mem)
  then show ?case by auto
qed

lemma end_envelop_layout:
  "housetuya_end_envelop_pre34 (housetuya_start_envelop sq cd @ body) = frame_of sq cd body"
proof -
  have e: "int (length (housetuya_start_envelop sq cd @ body)) - 8 = int (length body) + 8"
    by (simp add: housetuya_start_envelop_def length_be32)
  show ?thesis
    unfolding housetuya_end_envelop_pre34_def e
    by (simp add: housetuya_start_envelop_def frame_of_def be32_def)
qed

lemma length_frame_of: "length (frame_of sq cd body) = length body + 24"
  by (simp add: frame_of_def length_be32)

lemma open_frame:
  assumes small: "length body < 2000" and four: "4 \<le> length body"
    and skip: "skip = (if word_be (take 4 body) AND 0xffffff00 \<noteq> 0 then 0 else 4)"
    and sniff: "(case vers of None \<Rightarrow> Inr False
                 | Some v \<Rightarrow> strcmp_eq v
                     (drop skip (body @ be32 (housetuya_crc body) @ be32 0x0000aa55 @ rest)))
                = Inr same"
  shows "housetuya_open_envelop vers (frame_of sq cd body @ rest) (int (length (frame_of sq cd body))) =
         Inr \<lparr>op_length = int (length body) - int skip - (if same then 15 else 0),
              op_data = 16 + int skip + (if same then 15 else 0),
              op_code = Some cd, op_sequence = Some sq\<rparr>"
proof -
  define w :: "32 word" where "w = word_of_int (int (length body) + 8)"
  have fr: "frame_of sq cd body = be32 0x000055aa @ be32 sq @ be32 cd @ be32 w
       @ body @ be32 (housetuya_crc body) @ be32 0x0000aa55"
    by (simp only: frame_of_def w_def)
  let ?f = "frame_of sq cd body @ rest"
  let ?len = "int (length (frame_of sq cd body))"
  let ?mem = "body @ be32 (housetuya_crc body) @ be32 0x0000aa55 @ rest"
  have len: "?len = int (length body) + 24" by (simp add: length_frame_of)
  have r0: "rd32 ?f 0 = Inr 0x000055aa" by (simp add: fr rd32_0)
  have r4: "rd32 ?f 4 = Inr sq" by (simp add: fr rd32_4)
  have r8: "rd32 ?f 8 = Inr cd" by (simp add: fr rd32_8)
  have r12: "rd32 ?f 12 = Inr w"
    by (simp add: fr rd32_12)
  have "sint w = int (length body) + 8"
    unfolding w_def by (rule sint_small) (use small in simp_all)
  then have pl: "sint w = ?len - 16" by (simp add: len)
  have rs: "rd32 ?f (?len - 4) = Inr 0x0000aa55"
  proof -
    let ?a = "be32 0x000055aa @ be32 sq @ be32 cd @ be32 w
               @ body @ be32 (housetuya_crc body)"
    have "?f = ?a @ be32 0x0000aa55 @ rest" by (simp add: fr)
    moreover have "?len - 4 = int (length ?a)" by (simp add: len length_be32)
    ultimately show ?thesis using rd32_at [of ?a "0x0000aa55" rest] by simp
  qed
  have r16: "rd32 ?f 16 = Inr (word_be (take 4 body))"
    using four by (simp add: fr rd32_16)
  have d16: "drop 16 ?f = ?mem"
    by (simp add: fr length_be32)
  have "drop 4 (drop 16 ?f) = drop 20 ?f"
    by (simp only: drop_drop) simp
  then have d20: "drop 20 ?f = drop 4 ?mem"
    by (simp only: d16)
  show ?thesis
  proof (cases "word_be (take 4 body) AND 0xffffff00 \<noteq> 0")
    case True
    then have rc: "(word_be (take 4 body) AND 0xffffff00 = 0) = False" by simp
    have sk: "skip = 0" using skip True by simp
    have "drop (nat 16) ?f = drop skip ?mem" using d16 sk by simp
    then have sn: "(case vers of None \<Rightarrow> Inr False
             | Some v \<Rightarrow> strcmp_eq v (drop (nat 16) ?f)) = Inr same"
      using sniff by (cases vers) (simp_all only: option.simps)
    show ?thesis
      apply (simp only: housetuya_open_envelop_def r0 r4 r8 r12 rs r16 and_then_Inr pl rc sn
               simp_thms if_True if_False Let_def prod.case)
      apply (simp add: len sk)
      done
  next
    case False
    then have rc: "(word_be (take 4 body) AND 0xffffff00 = 0) = True" by simp
    have sk: "skip = 4" using skip False by simp
    have "drop (nat 20) ?f = drop skip ?mem" using d20 sk by simp
    then have sn: "(case vers of None \<Rightarrow> Inr False
             | Some v \<Rightarrow> strcmp_eq v (drop (nat 20) ?f)) = Inr same"
      using sniff by (cases vers) (simp_all only: option.simps)
    show ?thesis
      apply (simp only: housetuya_open_envelop_def r0 r4 r8 r12 rs r16 and_then_Inr pl rc sn
               simp_thms if_True if_False Let_def prod.case)
      apply (simp add: len sk)
      done
  qed
qed

lemma length_extended_header: "length (extended_header v) = 15"
  by (simp add: extended_header_def)

lemma length_encrypt:
  assumes "inverts E D k (pkcs7_pad p)"
  shows "length (housetuya_encrypt E k p) = length (pkcs7_pad p)"
  using ecb_length [OF assms] length_pkcs7_pad [of p]
  unfolding housetuya_encrypt_def evp_encrypt_def by presburger

lemma length_pad_bounds:
  "length p < length (pkcs7_pad p)" "length (pkcs7_pad p) \<le> length p + 16"
  by (simp_all add: pkcs7_pad_def Let_def)

lemma encode_control:
  assumes "key access = Some k" and "version access = Some v"
    and "int (length data) \<le> bufsize - 15"
    and "int (length (housetuya_encrypt E k data)) + 39 \<le> bufsize"
  shows "housetuya_encode E bufsize access TUYA_CONTROL sq data =
           Inr (int (length (frame_of sq TUYA_CONTROL (extended_header v @ housetuya_encrypt E k data))),
                frame_of sq TUYA_CONTROL (extended_header v @ housetuya_encrypt E k data))"
  using assms
  by (simp add: housetuya_encode_def and_then_def end_envelop_layout length_frame_of Let_def
        length_extended_header TUYA_CONTROL_def TUYA_QUERY_def TUYA_UPDATE_def)

lemma encode_query:
  assumes "key access = Some k"
    and "int (length data) \<le> bufsize - 15"
    and "int (length (housetuya_encrypt E k data)) + 24 \<le> bufsize"
  shows "housetuya_encode E bufsize access TUYA_QUERY sq data =
           Inr (int (length (frame_of sq TUYA_QUERY (housetuya_encrypt E k data))),
                frame_of sq TUYA_QUERY (housetuya_encrypt E k data))"
  using assms end_envelop_layout [of sq TUYA_QUERY "housetuya_encrypt E k data"]
  by (simp add: housetuya_encode_def and_then_def length_frame_of Let_def)


lemma take4: "4 \<le> length xs \<Longrightarrow> take 4 xs = [xs ! 0, xs ! 1, xs ! 2, xs ! 3]"
  by (cases xs; cases "tl xs"; cases "tl (tl xs)"; cases "tl (tl (tl xs))") auto

lemma take3: "3 \<le> length xs \<Longrightarrow> take 3 xs = [xs ! 0, xs ! 1, xs ! 2]"
  by (cases xs; cases "tl xs"; cases "tl (tl xs)") auto

lemma mem_read_at: "mem_read (a @ c @ b) (int (length a)) (int (length c)) = Inr c"
  by (simp add: mem_read_def)

lemma bytes_of_close: "bytes_of ''}}'' = [125, 125]" "bytes_of ''\"}'' = [34, 125]"
  by (simp_all add: bytes_of_def)

lemma untruncated: "length (take n xs) < n \<Longrightarrow> take n xs = xs"
  by simp

lemma control_command_last:
  assumes "length (control_command ident now dps val) < 1023"
  shows "control_command ident now dps val \<noteq> [] \<and> last (control_command ident now dps val) = 125"
proof -
  obtain xs where x: "control_command ident now dps val = take 1023 (xs @ bytes_of ''}}'')"
    unfolding control_command_def by (metis append.assoc)
  with assms have "take 1023 (xs @ bytes_of ''}}'') = xs @ bytes_of ''}}''"
    by (intro untruncated) simp
  then show ?thesis by (simp add: x bytes_of_close)
qed

lemma query_command_last:
  assumes "length (query_command ident now) < 1023"
  shows "query_command ident now \<noteq> [] \<and> last (query_command ident now) = 125"
proof -
  obtain xs where x: "query_command ident now = take 1023 (xs @ bytes_of ''\"}'')"
    unfolding query_command_def by (metis append.assoc)
  with assms have "take 1023 (xs @ bytes_of ''\"}'') = xs @ bytes_of ''\"}''"
    by (intro untruncated) simp
  then show ?thesis by (simp add: x bytes_of_close)
qed

lemma zero_in_suffix: "0 \<in> set (be32 0x0000aa55)"
  by (simp add: be32_def)

lemma extract_frame:
  assumes opn: "housetuya_open_envelop (version s) (frame_of sq cd body @ rest)
                  (int (length (frame_of sq cd body))) =
                Inr \<lparr>op_length = int (length c), op_data = int (length a),
                     op_code = Some cd, op_sequence = Some sq\<rparr>"
    and layout: "frame_of sq cd body @ rest = a @ c @ b"
    and k: "key s = Some k"
    and dec: "housetuya_decrypt D k outsize c = Inr (n, clear)"
  shows "housetuya_extract D outsize (Some s) (frame_of sq cd body @ rest)
           (int (length (frame_of sq cd body))) =
         (if c = [] \<or> n \<le> 0 then Inr (extract_failed (Some cd) (Some sq))
          else Inr \<lparr>ex_length = n, ex_payload = take (nat n) clear,
                    ex_code = Some cd, ex_sequence = Some sq\<rparr>)"
proof -
  have pos: "\<not> int (length (frame_of sq cd body)) \<le> 0" by (simp add: length_frame_of)
  have rd: "mem_read (frame_of sq cd body @ rest) (int (length a)) (int (length c)) = Inr c"
    unfolding layout by (rule mem_read_at)
  show ?thesis
    unfolding housetuya_extract_def
    apply (simp only: pos if_False option.case opn and_then_Inr opened.simps k rd dec prod.case)
    apply auto
    done
qed


lemma frame_split:
  "frame_of sq cd (ext @ c) @ rest =
     (be32 0x000055aa @ be32 sq @ be32 cd @ be32 (word_of_int (int (length (ext @ c)) + 8)) @ ext)
       @ c @ (be32 (housetuya_crc (ext @ c)) @ be32 0x0000aa55 @ rest)"
  by (simp only: frame_of_def append_assoc)

lemma control_round_trip:
  assumes s: "tuya_id s = Some ident" "key s = Some k" "version s = Some v"
    and v: "v \<noteq> []" "length v < 15" "0 \<notin> set v"
    and cmd: "cmd = control_command ident now dps val" and short: "length cmd < 1023"
    and inv: "inverts E D k (pkcs7_pad cmd)"
    and fits: "int (length cmd) + 55 \<le> bufsize" and room: "int (length cmd) < outsize"
    and frame: "frame = frame_of sq TUYA_CONTROL (extended_header v @ housetuya_encrypt E k cmd)"
  shows "housetuya_control E now bufsize s sq dps val = Inr (int (length frame), frame) \<and>
         housetuya_extract D outsize (Some s) (frame @ rest) (int (length frame)) =
           Inr \<lparr>ex_length = int (length cmd), ex_payload = cmd,
                ex_code = Some TUYA_CONTROL, ex_sequence = Some sq\<rparr>"
proof -
  define c where "c = housetuya_encrypt E k cmd"
  define ext where "ext = extended_header v"
  define mem where "mem = (ext @ c) @ be32 (housetuya_crc (ext @ c)) @ be32 0x0000aa55 @ rest"
  let ?frame = "frame_of sq TUYA_CONTROL (ext @ c)"
  have lc: "length c = length (pkcs7_pad cmd)"
    unfolding c_def by (rule length_encrypt [OF inv])
  have lc1: "length cmd < length c" "length c \<le> length cmd + 16"
    using length_pad_bounds [of cmd] by (simp_all add: lc)
  have le: "length ext = 15" by (simp add: ext_def length_extended_header)
  have enc: "housetuya_control E now bufsize s sq dps val = Inr (int (length ?frame), ?frame)"
    unfolding housetuya_control_def s option.case cmd [symmetric] ext_def c_def
    by (rule encode_control [OF s(2) s(3)]) (use fits lc1 in \<open>simp_all add: c_def\<close>)
  have tail: "cmd \<noteq> []" "last cmd = 125"
    using control_command_last [of ident now dps val] short by (simp_all add: cmd)
  have dec: "housetuya_decrypt D k outsize c = Inr (int (length cmd), cmd @ [0])"
    unfolding c_def by (rule decrypt_encrypt [OF inv tail(1) _ room]) (simp add: tail(2))
  have ev: "ext = v @ 0 # replicate (14 - length v) 0"
  proof -
    have "replicate (15 - length v) (0::byte) = 0 # replicate (14 - length v) 0"
      using v(2) by (cases "15 - length v") (simp_all add: Suc_diff_Suc)
    then show ?thesis using v(2) by (simp add: ext_def extended_header_def)
  qed
  have hd0: "ext ! 0 = hd v" using v(1) by (cases v) (simp_all add: ev)
  have "hd v \<noteq> 0" using v(1,3) by (cases v) auto
  then have hi: "word_be (take 4 (ext @ c)) AND 0xffffff00 \<noteq> 0"
    using le by (simp add: take4 high_bytes nth_append hd0)
  have zero: "0 \<in> set mem" by (simp add: mem_def ev)
  have pre: "take (length v + 1) mem = v @ [0]" by (simp add: mem_def ev)
  have sniff: "(case version s of None \<Rightarrow> Inr False
                | Some v \<Rightarrow> strcmp_eq v (drop 0
                    ((ext @ c) @ be32 (housetuya_crc (ext @ c)) @ be32 0x0000aa55 @ rest)))
               = Inr True"
    using strcmp_eq_prefix [OF v(3) zero] pre by (simp add: s mem_def)
  have opn: "housetuya_open_envelop (version s) (?frame @ rest) (int (length ?frame)) =
               Inr \<lparr>op_length = int (length (ext @ c)) - int 0 - (if True then 15 else 0),
                    op_data = 16 + int 0 + (if True then 15 else 0),
                    op_code = Some TUYA_CONTROL, op_sequence = Some sq\<rparr>"
    by (rule open_frame [OF _ _ _ sniff]) (use le lc1 short hi in simp_all)
  let ?a = "be32 0x000055aa @ be32 sq @ be32 TUYA_CONTROL
              @ be32 (word_of_int (int (length (ext @ c)) + 8)) @ ext"
  have la: "int (length ?a) = 31" by (simp add: length_be32 le)
  have opn': "housetuya_open_envelop (version s) (?frame @ rest) (int (length ?frame)) =
               Inr \<lparr>op_length = int (length c), op_data = int (length ?a),
                    op_code = Some TUYA_CONTROL, op_sequence = Some sq\<rparr>"
    unfolding opn la by (simp add: le)
  have "housetuya_extract D outsize (Some s) (?frame @ rest) (int (length ?frame)) =
          Inr \<lparr>ex_length = int (length cmd), ex_payload = cmd,
               ex_code = Some TUYA_CONTROL, ex_sequence = Some sq\<rparr>"
    unfolding extract_frame [OF opn' frame_split s(2) dec]
    using tail(1) lc1 by auto
  with enc show ?thesis by (simp add: frame ext_def c_def)
qed


lemma pad_at_least: "16 \<le> length (pkcs7_pad p)"
  using length_pkcs7_pad [of p] length_pad_bounds(1) [of p] by presburger

lemma replicate15: "replicate 15 (0::byte) = [0, 0, 0, 0] @ 0 # replicate 10 0"
  by (simp add: numeral_eq_Suc)

lemma decrypt_partial:
  "length x mod 16 \<noteq> 0 \<Longrightarrow> housetuya_decrypt D k outsize x = Inr (0, [])"
  by (simp add: housetuya_decrypt_def evp_decrypt_def)

lemma less_whole:
  assumes "16 \<le> (n::nat)" and "n mod 16 = 0"
  shows "(n - 4) mod 16 \<noteq> 0"
proof -
  from assms(2) obtain q where q: "n = 16 * q" by (auto simp add: mod_eq_0_iff_dvd)
  with assms(1) obtain r where r: "q = Suc r" by (cases q) auto
  have "n - 4 = 16 * r + 12" by (simp add: q r)
  then show ?thesis by simp
qed

lemma query_round_trip:
  assumes s: "tuya_id s = Some ident" "key s = Some k" "version s = Some v"
    and v: "length v < 15" "0 \<notin> set v"
    and cmd: "cmd = query_command ident now" and short: "length cmd < 1023"
    and inv: "inverts E D k (pkcs7_pad cmd)"
    and fits: "int (length cmd) + 55 \<le> bufsize" and room: "int (length cmd) < outsize"
    and c3: "take 3 (housetuya_encrypt E k cmd) \<noteq> [0, 0, 0]"
    and cv: "take (length v + 1) (housetuya_encrypt E k cmd) \<noteq> v @ [0]"
    and frame: "frame = frame_of sq TUYA_QUERY (housetuya_encrypt E k cmd)"
  shows "housetuya_query E now bufsize s sq = Inr (int (length frame), frame) \<and>
         housetuya_extract D outsize (Some s) (frame @ rest) (int (length frame)) =
           Inr \<lparr>ex_length = int (length cmd), ex_payload = cmd,
                ex_code = Some TUYA_QUERY, ex_sequence = Some sq\<rparr>"
proof -
  define c where "c = housetuya_encrypt E k cmd"
  define mem where "mem = c @ be32 (housetuya_crc c) @ be32 0x0000aa55 @ rest"
  let ?frame = "frame_of sq TUYA_QUERY c"
  have lc: "length c = length (pkcs7_pad cmd)"
    unfolding c_def by (rule length_encrypt [OF inv])
  have lc1: "length cmd < length c" "length c \<le> length cmd + 16"
    using length_pad_bounds [of cmd] by (simp_all add: lc)
  have lc16: "16 \<le> length c"
    using pad_at_least [of cmd] by (simp add: lc)
  have enc: "housetuya_query E now bufsize s sq = Inr (int (length ?frame), ?frame)"
    unfolding housetuya_query_def s option.case cmd [symmetric] c_def
    by (rule encode_query [OF s(2)]) (use fits lc1 in \<open>simp_all add: c_def\<close>)
  have tail: "cmd \<noteq> []" "last cmd = 125"
    using query_command_last [of ident now] short by (simp_all add: cmd)
  have dec: "housetuya_decrypt D k outsize c = Inr (int (length cmd), cmd @ [0])"
    unfolding c_def by (rule decrypt_encrypt [OF inv tail(1) _ room]) (simp add: tail(2))
  have "take 3 c = [c ! 0, c ! 1, c ! 2]" using lc16 by (simp add: take3)
  with c3 have "\<not> (c ! 0 = 0 \<and> c ! 1 = 0 \<and> c ! 2 = 0)" by (simp add: c_def)
  then have hi: "word_be (take 4 c) AND 0xffffff00 \<noteq> 0"
    using lc16 by (simp add: take4 high_bytes)
  have zero: "0 \<in> set mem" using zero_in_suffix by (simp add: mem_def)
  have "take (length v + 1) mem = take (length v + 1) c"
    using v(1) lc16 by (simp add: mem_def)
  with cv have pre: "take (length v + 1) mem \<noteq> v @ [0]" by (simp add: c_def)
  have sniff: "(case version s of None \<Rightarrow> Inr False
                | Some v \<Rightarrow> strcmp_eq v (drop 0
                    (c @ be32 (housetuya_crc c) @ be32 0x0000aa55 @ rest)))
               = Inr False"
    using strcmp_eq_prefix [OF v(2) zero] pre by (simp add: s mem_def)
  have opn: "housetuya_open_envelop (version s) (?frame @ rest) (int (length ?frame)) =
               Inr \<lparr>op_length = int (length c) - int 0 - (if False then 15 else 0),
                    op_data = 16 + int 0 + (if False then 15 else 0),
                    op_code = Some TUYA_QUERY, op_sequence = Some sq\<rparr>"
    by (rule open_frame [OF _ _ _ sniff]) (use lc1 lc16 short hi in simp_all)
  let ?a = "be32 0x000055aa @ be32 sq @ be32 TUYA_QUERY
              @ be32 (word_of_int (int (length ([] @ c)) + 8)) @ []"
  have la: "int (length ?a) = 16" by (simp add: length_be32)
  have opn': "housetuya_open_envelop (version s) (frame_of sq TUYA_QUERY ([] @ c) @ rest)
                 (int (length (frame_of sq TUYA_QUERY ([] @ c)))) =
               Inr \<lparr>op_length = int (length c), op_data = int (length ?a),
                    op_code = Some TUYA_QUERY, op_sequence = Some sq\<rparr>"
    unfolding la using opn by simp
  have "housetuya_extract D outsize (Some s) (frame_of sq TUYA_QUERY ([] @ c) @ rest)
          (int (length (frame_of sq TUYA_QUERY ([] @ c)))) =
          Inr \<lparr>ex_length = int (length cmd), ex_payload = cmd,
               ex_code = Some TUYA_QUERY, ex_sequence = Some sq\<rparr>"
    unfolding extract_frame [OF opn' frame_split s(2) dec]
    using tail(1) lc1 by auto
  with enc show ?thesis by (simp add: frame c_def)
qed

text \<open>An empty version string: the frame is made, and the decoder rejects it.\<close>

lemma control_empty_version:
  assumes s: "tuya_id s = Some ident" "key s = Some k" "version s = Some []"
    and cmd: "cmd = control_command ident now dps val"
    and inv: "inverts E D k (pkcs7_pad cmd)"
    and fits: "int (length cmd) + 55 \<le> bufsize"
    and frame: "frame = frame_of sq TUYA_CONTROL (extended_header [] @ housetuya_encrypt E k cmd)"
  shows "housetuya_control E now bufsize s sq dps val = Inr (int (length frame), frame) \<and>
         housetuya_extract D outsize (Some s) (frame @ rest) (int (length frame)) =
           Inr (extract_failed (Some TUYA_CONTROL) (Some sq))"
proof -
  define c where "c = housetuya_encrypt E k cmd"
  define ext :: "byte list" where "ext = extended_header []"
  let ?frame = "frame_of sq TUYA_CONTROL (ext @ c)"
  have lc: "length c = length (pkcs7_pad cmd)"
    unfolding c_def by (rule length_encrypt [OF inv])
  have lc1: "length cmd < length c" "length c \<le> length cmd + 16"
    using length_pad_bounds [of cmd] by (simp_all add: lc)
  have lc16: "16 \<le> length c" "length c mod 16 = 0"
    using pad_at_least [of cmd] length_pkcs7_pad [of cmd] by (simp_all add: lc)
  have small: "length cmd \<le> 1023"
    unfolding cmd control_command_def by (simp only: length_take min.cobounded2)
  have le: "length ext = 15" by (simp add: ext_def length_extended_header)
  have ev: "ext = [0, 0, 0, 0] @ 0 # replicate 10 0"
    by (simp add: ext_def extended_header_def replicate15)
  have enc: "housetuya_control E now bufsize s sq dps val = Inr (int (length ?frame), ?frame)"
    unfolding housetuya_control_def s option.case cmd [symmetric] ext_def c_def
    by (rule encode_control [OF s(2) s(3)]) (use fits lc1 in \<open>simp_all add: c_def\<close>)
  have t4: "take 4 (ext @ c) = [0, 0, 0, 0]" by (simp add: ev)
  have lo: "\<not> word_be (take 4 (ext @ c)) AND 0xffffff00 \<noteq> 0"
    unfolding t4 by (simp add: high_bytes)
  have d4: "drop 4 ((ext @ c) @ be32 (housetuya_crc (ext @ c)) @ be32 0x0000aa55 @ rest)
              = 0 # replicate 10 0 @ c @ be32 (housetuya_crc (ext @ c)) @ be32 0x0000aa55 @ rest"
    by (simp add: ev)
  have sniff: "(case version s of None \<Rightarrow> Inr False
                | Some v \<Rightarrow> strcmp_eq v (drop 4
                    ((ext @ c) @ be32 (housetuya_crc (ext @ c)) @ be32 0x0000aa55 @ rest)))
               = Inr True"
    unfolding d4 by (simp add: s)
  have opn: "housetuya_open_envelop (version s) (?frame @ rest) (int (length ?frame)) =
               Inr \<lparr>op_length = int (length (ext @ c)) - int 4 - (if True then 15 else 0),
                    op_data = 16 + int 4 + (if True then 15 else 0),
                    op_code = Some TUYA_CONTROL, op_sequence = Some sq\<rparr>"
    by (rule open_frame [OF _ _ _ sniff]) (use le lc1 small lo in simp_all)
  let ?a = "be32 0x000055aa @ be32 sq @ be32 TUYA_CONTROL
              @ be32 (word_of_int (int (length (ext @ c)) + 8)) @ ext @ take 4 c"
  let ?b = "be32 (housetuya_crc (ext @ c)) @ be32 0x0000aa55 @ rest"
  have la: "int (length ?a) = 35" using lc16 by (simp add: length_be32 le)
  have layout: "?frame @ rest = ?a @ drop 4 c @ ?b"
    by (simp add: frame_of_def)
  have opn': "housetuya_open_envelop (version s) (?frame @ rest) (int (length ?frame)) =
               Inr \<lparr>op_length = int (length (drop 4 c)), op_data = int (length ?a),
                    op_code = Some TUYA_CONTROL, op_sequence = Some sq\<rparr>"
    unfolding opn la using lc16 by (simp add: le)
  have dec: "housetuya_decrypt D k outsize (drop 4 c) = Inr (0, [])"
    by (rule decrypt_partial) (rule less_whole [OF lc16, simplified length_drop [symmetric]])
  have "housetuya_extract D outsize (Some s) (?frame @ rest) (int (length ?frame)) =
          Inr (extract_failed (Some TUYA_CONTROL) (Some sq))"
    unfolding extract_frame [OF opn' layout s(2) dec] by simp
  with enc show ?thesis by (simp add: frame ext_def c_def)
qed


section \<open>The examples\<close>

lemma xor_twice: "length k = length b \<Longrightarrow> map2 (XOR) k (map2 (XOR) k b) = (b :: byte list)"
proof (induction k arbitrary: b)
  case Nil
  then show ?case by simp
next
  case (Cons x k)
  then obtain y b' where "b = y # b'" by (cases b) auto
  with Cons show ?case by (simp add: xor.assoc [symmetric])
qed

lemma inverts_example:
  assumes "length k = 16"
  shows "inverts example_cipher example_cipher k xs"
  unfolding inverts_def
proof
  fix b assume "b \<in> set (blocks (length xs div 16) xs)"
  moreover have "16 * (length xs div 16) \<le> length xs" by simp
  ultimately have "length b = 16" by (rule blocks_length [rotated])
  with assms show "length (example_cipher k b) = 16 \<and> example_cipher k (example_cipher k b) = b"
    by (simp add: example_cipher_def xor_twice)
qed

lemma length_example_key: "length example_key = 16"
  by (simp add: example_key_def bytes_of_def)

lemma example_inverts: "inverts example_cipher example_cipher example_key xs"
  by (rule inverts_example [OF length_example_key])

lemma blocks_numeral:
  "blocks (numeral n) xs = take 16 xs # blocks (pred_numeral n) (drop 16 xs)"
  by (simp add: numeral_eq_Suc)

lemma replicate_numeral:
  "replicate (numeral n) x = x # replicate (pred_numeral n) x"
  by (simp add: numeral_eq_Suc)

lemma example_control_command:
  "control_command (bytes_of ''bf12'') 1700000000 1 1 =
   [123, 34, 100, 101, 118, 73, 100, 34, 58, 34, 98, 102, 49, 50, 34, 44, 34,
    117, 105, 100, 34, 58, 34, 98, 102, 49, 50, 34, 44, 34, 116, 34, 58, 34,
    49, 55, 48, 48, 48, 48, 48, 48, 48, 48, 34, 44, 34, 100, 112, 115, 34, 58,
    123, 34, 49, 34, 58, 116, 114, 117, 101, 125, 125]"
  by (simp add: control_command_def bytes_of_def printf_d_def)

lemma example_query_command:
  "query_command (bytes_of ''bf12'') 1700000000 =
   [123, 34, 100, 101, 118, 73, 100, 34, 58, 34, 98, 102, 49, 50, 34, 44, 34,
    117, 105, 100, 34, 58, 34, 98, 102, 49, 50, 34, 44, 34, 116, 34, 58, 34,
    49, 55, 48, 48, 48, 48, 48, 48, 48, 48, 34, 125]"
  by (simp add: query_command_def bytes_of_def printf_d_def)

lemma example_query_cipher:
  "housetuya_encrypt example_cipher example_key (query_command (bytes_of ''bf12'') 1700000000) =
   [75, 19, 86, 86, 66, 124, 82, 21, 2, 27, 3, 4, 82, 86, 71, 74, 18, 68, 91,
    87, 22, 15, 20, 85, 94, 8, 83, 64, 79, 70, 17, 68, 10, 19, 3, 4, 4, 5, 6,
    7, 8, 9, 81, 82, 65, 25, 103, 100]"
  unfolding example_query_command
  by (simp add: housetuya_encrypt_def evp_encrypt_def ecb_def pkcs7_pad_def blocks_numeral
        replicate_numeral example_cipher_def example_key_def bytes_of_def)

section \<open>The round trip through the cipher\<close>

text \<open>
  C8, as stated, fails: the padding has been removed by \<^verbatim>\<open>EVP_DecryptFinal_ex\<close> when
  \<^verbatim>\<open>housetuya_decrypt\<close> looks at the last byte and removes that many bytes again. The
  plaintext of one byte of value 1 comes back with the length 0.
\<close>

theorem aes_round_trip_counterexample:
  "housetuya_decrypt example_cipher example_key 1024
     (housetuya_encrypt example_cipher example_key [1]) = Inr (0, [0])"
  using evp_round_trip [OF example_inverts, of "[1]"]
  by (simp add: housetuya_decrypt_def housetuya_encrypt_def)

text \<open>
  C8, amended: for every key and every plaintext that is not empty, whose last byte is
  not in the range 1 to 15 (a JSON text ends with a brace) and that is shorter than the
  array given for the result, \<^verbatim>\<open>housetuya_decrypt\<close> of the output of
  \<^verbatim>\<open>housetuya_encrypt\<close> with the same key gives the plaintext and its length, a NUL
  after it. The cipher is required to decrypt what it encrypted, on the blocks of this
  plaintext.
\<close>

theorem aes_round_trip:
  assumes "inverts E D k (pkcs7_pad p)"
    and "p \<noteq> []" and "\<not> (0 < last p \<and> last p < 16)"
    and "int (length p) < room"
  shows "housetuya_decrypt D k room (housetuya_encrypt E k p) = Inr (int (length p), p @ [0])"
  using assms by (rule decrypt_encrypt)

theorem aes_round_trip_witness:
  "inverts example_cipher example_cipher example_key (pkcs7_pad [123, 125]) \<and>
   [123, 125] \<noteq> ([] :: byte list) \<and> \<not> (0 < last [123, 125 :: byte] \<and> last [123, 125 :: byte] < 16) \<and>
   int (length [123, 125 :: byte]) < 1024 \<and>
   housetuya_decrypt example_cipher example_key 1024
     (housetuya_encrypt example_cipher example_key [123, 125]) = Inr (2, [123, 125, 0])"
  using aes_round_trip [of example_cipher example_cipher example_key "[123, 125]" 1024]
        example_inverts [of "pkcs7_pad [123, 125]"]
  by simp

section \<open>The round trip through the codec\<close>

text \<open>
  C1, as stated, fails: with an empty version string the encoder writes 15 zero bytes
  as extended header, the decoder takes the first four of them for a return code and
  the next ones for the (empty) version, and what is left for the cipher is not a whole
  number of blocks. The frame is made and the decoder returns 0.
\<close>

theorem codec_round_trip_counterexample:
  "housetuya_control example_cipher 1700000000 1024 (example_secret\<lparr>version := Some []\<rparr>) 0 1 1 =
     Inr (int (length (encoded_control example_cipher example_key [] 0
                         (control_command (bytes_of ''bf12'') 1700000000 1 1))),
          encoded_control example_cipher example_key [] 0
            (control_command (bytes_of ''bf12'') 1700000000 1 1)) \<and>
   housetuya_extract example_cipher 1600 (Some (example_secret\<lparr>version := Some []\<rparr>))
     (encoded_control example_cipher example_key [] 0
        (control_command (bytes_of ''bf12'') 1700000000 1 1))
     (int (length (encoded_control example_cipher example_key [] 0
        (control_command (bytes_of ''bf12'') 1700000000 1 1)))) =
     Inr (extract_failed (Some TUYA_CONTROL) (Some 0)) \<and>
   control_command (bytes_of ''bf12'') 1700000000 1 1 \<noteq> []"
proof -
  have len: "length (control_command (bytes_of ''bf12'') 1700000000 1 1) = 63"
    by (simp add: example_control_command)
  have "int (length (control_command (bytes_of ''bf12'') 1700000000 1 1)) + 55 \<le> 1024"
    by (simp add: len)
  from control_empty_version [where rest = "[]" and s = "example_secret\<lparr>version := Some []\<rparr>",
         OF _ _ _ refl example_inverts this refl]
  show ?thesis using len by (auto simp add: example_secret_def encoded_control_def)
qed

text \<open>
  C1, amended: for every device id, key, version string of 1 to 14 characters, dps and
  value, when the command is shorter than the 1023 characters that \<^verbatim>\<open>snprintf\<close>
  keeps, the frame fits the buffer of the encoder and the command the buffer of the
  decoder, \<^verbatim>\<open>housetuya_extract\<close> with the same secret gives, of the frame that
  \<^verbatim>\<open>housetuya_control\<close> made, the command as it was before encryption, the code
  CONTROL and the sequence number; whatever follows the frame in the array received. The
  same holds of the frame of \<^verbatim>\<open>housetuya_query\<close>, with the code QUERY, when the
  ciphertext does not start with three zero bytes nor with the version string and a NUL
  (the frame has no extended header, and the decoder would see a return code, or a
  header, in the ciphertext).
\<close>

theorem codec_round_trip:
  assumes "tuya_id s = Some ident" and "key s = Some k" and "version s = Some v"
    and "v \<noteq> []" and "length v < 15" and "0 \<notin> set v"
    and "int (length (control_command ident now dps val)) + 55 \<le> bufsize"
    and "int (length (query_command ident now)) + 55 \<le> bufsize"
  shows
   "(length (control_command ident now dps val) < 1023 \<and>
     int (length (control_command ident now dps val)) < outsize \<and>
     inverts E D k (pkcs7_pad (control_command ident now dps val)) \<longrightarrow>
     housetuya_control E now bufsize s sq dps val =
       Inr (int (length (encoded_control E k v sq (control_command ident now dps val))),
            encoded_control E k v sq (control_command ident now dps val)) \<and>
     housetuya_extract D outsize (Some s)
       (encoded_control E k v sq (control_command ident now dps val) @ rest)
       (int (length (encoded_control E k v sq (control_command ident now dps val)))) =
       Inr \<lparr>ex_length = int (length (control_command ident now dps val)),
            ex_payload = control_command ident now dps val,
            ex_code = Some TUYA_CONTROL, ex_sequence = Some sq\<rparr>)
    \<and>
    (length (query_command ident now) < 1023 \<and>
     int (length (query_command ident now)) < outsize \<and>
     inverts E D k (pkcs7_pad (query_command ident now)) \<and>
     take 3 (housetuya_encrypt E k (query_command ident now)) \<noteq> [0, 0, 0] \<and>
     take (length v + 1) (housetuya_encrypt E k (query_command ident now)) \<noteq> v @ [0] \<longrightarrow>
     housetuya_query E now bufsize s sq =
       Inr (int (length (encoded_query E k sq (query_command ident now))),
            encoded_query E k sq (query_command ident now)) \<and>
     housetuya_extract D outsize (Some s)
       (encoded_query E k sq (query_command ident now) @ rest)
       (int (length (encoded_query E k sq (query_command ident now)))) =
       Inr \<lparr>ex_length = int (length (query_command ident now)),
            ex_payload = query_command ident now,
            ex_code = Some TUYA_QUERY, ex_sequence = Some sq\<rparr>)"
proof (intro conjI impI)
  assume a: "length (control_command ident now dps val) < 1023 \<and>
     int (length (control_command ident now dps val)) < outsize \<and>
     inverts E D k (pkcs7_pad (control_command ident now dps val))"
  from control_round_trip [OF assms(1-6) refl _ _ assms(7) _ refl, of E D outsize sq rest] a
  show "housetuya_control E now bufsize s sq dps val =
       Inr (int (length (encoded_control E k v sq (control_command ident now dps val))),
            encoded_control E k v sq (control_command ident now dps val))"
    and "housetuya_extract D outsize (Some s)
       (encoded_control E k v sq (control_command ident now dps val) @ rest)
       (int (length (encoded_control E k v sq (control_command ident now dps val)))) =
       Inr \<lparr>ex_length = int (length (control_command ident now dps val)),
            ex_payload = control_command ident now dps val,
            ex_code = Some TUYA_CONTROL, ex_sequence = Some sq\<rparr>"
    by (simp_all add: encoded_control_def)
next
  assume a: "length (query_command ident now) < 1023 \<and>
     int (length (query_command ident now)) < outsize \<and>
     inverts E D k (pkcs7_pad (query_command ident now)) \<and>
     take 3 (housetuya_encrypt E k (query_command ident now)) \<noteq> [0, 0, 0] \<and>
     take (length v + 1) (housetuya_encrypt E k (query_command ident now)) \<noteq> v @ [0]"
  from query_round_trip [OF assms(1-3) assms(5-6) refl _ _ assms(8) _ _ _ refl, of E D outsize sq rest] a
  show "housetuya_query E now bufsize s sq =
       Inr (int (length (encoded_query E k sq (query_command ident now))),
            encoded_query E k sq (query_command ident now))"
    and "housetuya_extract D outsize (Some s)
       (encoded_query E k sq (query_command ident now) @ rest)
       (int (length (encoded_query E k sq (query_command ident now)))) =
       Inr \<lparr>ex_length = int (length (query_command ident now)),
            ex_payload = query_command ident now,
            ex_code = Some TUYA_QUERY, ex_sequence = Some sq\<rparr>"
    by (simp_all add: encoded_query_def)
qed

theorem codec_round_trip_witness:
  "tuya_id example_secret = Some (bytes_of ''bf12'') \<and> key example_secret = Some example_key \<and>
   version example_secret = Some (bytes_of ''3.3'') \<and>
   bytes_of ''3.3'' \<noteq> [] \<and> length (bytes_of ''3.3'') < 15 \<and> 0 \<notin> set (bytes_of ''3.3'') \<and>
   int (length (control_command (bytes_of ''bf12'') 1700000000 1 1)) + 55 \<le> 1024 \<and>
   int (length (query_command (bytes_of ''bf12'') 1700000000)) + 55 \<le> 1024 \<and>
   length (control_command (bytes_of ''bf12'') 1700000000 1 1) < 1023 \<and>
   int (length (control_command (bytes_of ''bf12'') 1700000000 1 1)) < 1600 \<and>
   inverts example_cipher example_cipher example_key
     (pkcs7_pad (control_command (bytes_of ''bf12'') 1700000000 1 1)) \<and>
   length (query_command (bytes_of ''bf12'') 1700000000) < 1023 \<and>
   int (length (query_command (bytes_of ''bf12'') 1700000000)) < 1600 \<and>
   inverts example_cipher example_cipher example_key
     (pkcs7_pad (query_command (bytes_of ''bf12'') 1700000000)) \<and>
   take 3 (housetuya_encrypt example_cipher example_key
     (query_command (bytes_of ''bf12'') 1700000000)) \<noteq> [0, 0, 0] \<and>
   take (length (bytes_of ''3.3'') + 1) (housetuya_encrypt example_cipher example_key
     (query_command (bytes_of ''bf12'') 1700000000)) \<noteq> bytes_of ''3.3'' @ [0] \<and>
   housetuya_control example_cipher 1700000000 1024 example_secret 0 1 1 =
     Inr (int (length example_control_frame), example_control_frame) \<and>
   housetuya_extract example_cipher 1600 (Some example_secret) example_control_frame
     (int (length example_control_frame)) =
     Inr \<lparr>ex_length = 63, ex_payload = control_command (bytes_of ''bf12'') 1700000000 1 1,
          ex_code = Some TUYA_CONTROL, ex_sequence = Some 0\<rparr> \<and>
   housetuya_query example_cipher 1700000000 1024 example_secret 0 =
     Inr (int (length example_query_frame), example_query_frame) \<and>
   housetuya_extract example_cipher 1600 (Some example_secret) example_query_frame
     (int (length example_query_frame)) =
     Inr \<lparr>ex_length = 46, ex_payload = query_command (bytes_of ''bf12'') 1700000000,
          ex_code = Some TUYA_QUERY, ex_sequence = Some 0\<rparr>"
proof -
  have lc: "length (control_command (bytes_of ''bf12'') 1700000000 1 1) = 63"
    by (simp add: example_control_command)
  have lq: "length (query_command (bytes_of ''bf12'') 1700000000) = 46"
    by (simp add: example_query_command)
  have v: "bytes_of ''3.3'' = [51, 46, 51]" by (simp add: bytes_of_def)
  have s: "tuya_id example_secret = Some (bytes_of ''bf12'')"
    "key example_secret = Some example_key" "version example_secret = Some (bytes_of ''3.3'')"
    by (simp_all add: example_secret_def)
  have c3: "take 3 (housetuya_encrypt example_cipher example_key
     (query_command (bytes_of ''bf12'') 1700000000)) \<noteq> [0, 0, 0]"
    by (simp add: example_query_cipher)
  have cv: "take (length (bytes_of ''3.3'') + 1) (housetuya_encrypt example_cipher example_key
     (query_command (bytes_of ''bf12'') 1700000000)) \<noteq> bytes_of ''3.3'' @ [0]"
    by (simp add: example_query_cipher v)
  from codec_round_trip [OF s, of 1700000000 1 1 1024 1600 example_cipher example_cipher 0 "[]"]
  show ?thesis
    using example_inverts c3 cv
    by (simp add: lc lq s v example_control_frame_def example_query_frame_def)
qed

section \<open>The checksum of a frame\<close>

lemma example_query_crc:
  "housetuya_crc [75, 19, 86, 86, 66, 124, 82, 21, 2, 27, 3, 4, 82, 86, 71, 74, 18, 68, 91,
    87, 22, 15, 20, 85, 94, 8, 83, 64, 79, 70, 17, 68, 10, 19, 3, 4, 4, 5, 6,
    7, 8, 9, 81, 82, 65, 25, 103, 100] = 2573373620"
  by (simp add: housetuya_crc_def crc_update_def crc_table_def crc_shift_def)

lemma example_query_frame_bytes:
  "example_query_frame =
    [0, 0, 85, 170, 0, 0, 0, 0, 0, 0, 0, 10, 0, 0, 0, 56, 75, 19, 86, 86, 66,
     124, 82, 21, 2, 27, 3, 4, 82, 86, 71, 74, 18, 68, 91, 87, 22, 15, 20, 85,
     94, 8, 83, 64, 79, 70, 17, 68, 10, 19, 3, 4, 4, 5, 6, 7, 8, 9, 81, 82, 65,
     25, 103, 100, 153, 98, 144, 180, 0, 0, 170, 85]"
  unfolding example_query_frame_def encoded_query_def example_query_cipher frame_of_def example_query_crc
  by (simp add: be32_def TUYA_QUERY_def)

lemma example_query_encoded:
  "housetuya_query example_cipher 1700000000 1024 example_secret 0 = Inr (72, example_query_frame)"
proof -
  have "housetuya_encode example_cipher 1024 example_secret TUYA_QUERY 0
          (query_command (bytes_of ''bf12'') 1700000000) =
        Inr (int (length example_query_frame), example_query_frame)"
    unfolding example_query_frame_def encoded_query_def
    by (rule encode_query [of _ example_key])
       (simp_all add: example_query_cipher, simp_all add: example_secret_def example_query_command)
  then show ?thesis
    by (simp add: housetuya_query_def example_secret_def example_query_frame_bytes)
qed

text \<open>
  C2, as stated, fails: the checksum is computed from \<^verbatim>\<open>buffer + 16\<close> on, that is over
  the extended header and the payload; the sequence number, the code and the length are
  left out, as the prefix is. In the frame of the example the field holds the checksum
  of the 48 bytes after the header, not that of the 60 bytes after the prefix.
\<close>

theorem crc_coverage_counterexample:
  "housetuya_query example_cipher 1700000000 1024 example_secret 0 = Inr (72, example_query_frame) \<and>
   rd32 example_query_frame (72 - 8) = Inr 2573373620 \<and>
   spec_crc example_query_frame = 20466681"
proof -
  have "rd32 example_query_frame (72 - 8) = Inr 2573373620"
    by (simp add: example_query_frame_bytes rd32_def word_be_def)
  moreover have "spec_crc example_query_frame = 20466681"
    unfolding example_query_frame_bytes spec_crc_def
    by (simp add: housetuya_crc_def crc_update_def crc_table_def crc_shift_def)
  ultimately show ?thesis using example_query_encoded by simp
qed

lemma frame_crc_field:
  "rd32 (frame_of sq cd body) (int (length (frame_of sq cd body)) - 8) = Inr (housetuya_crc body)"
proof -
  let ?a = "be32 0x000055aa @ be32 sq @ be32 cd @ be32 (word_of_int (int (length body) + 8)) @ body"
  have f: "frame_of sq cd body = ?a @ be32 (housetuya_crc body) @ be32 0x0000aa55"
    by (simp only: frame_of_def append_assoc)
  have l: "int (length (frame_of sq cd body)) - 8 = int (length ?a)"
    by (simp add: length_frame_of length_be32)
  show ?thesis
    unfolding l unfolding f by (rule rd32_at)
qed

lemma frame_body:
  "take (length (frame_of sq cd body) - 24) (drop 16 (frame_of sq cd body)) = body"
  by (simp add: length_frame_of) (simp add: frame_of_def be32_def)

text \<open>
  C2, amended: in every frame that the encoder makes, the field before the suffix holds
  the checksum of the bytes between the 16 bytes of the header (prefix, sequence number,
  code, length) and the field itself: the extended header, if any, and the payload.
\<close>

theorem crc_coverage:
  assumes "housetuya_encode E bufsize access code sq data = Inr (n, frame)" and "0 < n"
  shows "rd32 frame (n - 8) = Inr (housetuya_crc (take (nat n - 24) (drop 16 frame)))"
proof -
  from assms obtain body where "frame = frame_of sq code body" and "n = int (length frame)"
    by (auto simp add: housetuya_encode_def and_then_def end_envelop_layout Let_def
             split: if_splits option.splits sum.splits)
  then show ?thesis by (simp add: frame_crc_field frame_body)
qed

theorem crc_coverage_witness:
  "housetuya_encode example_cipher 1024 example_secret TUYA_QUERY 0
     (query_command (bytes_of ''bf12'') 1700000000) = Inr (72, example_query_frame) \<and>
   (0::int) < 72 \<and>
   rd32 example_query_frame (72 - 8) =
     Inr (housetuya_crc (take (nat 72 - 24) (drop 16 example_query_frame)))"
proof -
  have e: "housetuya_encode example_cipher 1024 example_secret TUYA_QUERY 0
     (query_command (bytes_of ''bf12'') 1700000000) = Inr (72, example_query_frame)"
    using example_query_encoded by (simp add: housetuya_query_def example_secret_def)
  from crc_coverage [OF e] e show ?thesis by simp
qed

section \<open>The decoder on a short frame\<close>

text \<open>
  C3 does not hold of the code: without a secret, the length that
  \<^verbatim>\<open>housetuya_open_envelop\<close> returns is not checked. On the frame of 20 bytes below
  (header and suffix, nothing between them) that length is \<open>20 - 24\<close>, and it is given
  to \<^verbatim>\<open>memcpy\<close> as a size and then returned. With a secret the same length is caught
  by \<^verbatim>\<open>if (datalen <= 0) return 0\<close>.
\<close>

theorem extract_without_secret_short_frame:
  "housetuya_extract D bufsize None
     [0, 0, 0x55, 0xaa,  0, 0, 0, 0,  0, 0, 0, 8,  0, 0, 0, 4,  0, 0, 0xaa, 0x55] 20
   = Inl (Negative_size (- 4))"
  by (simp add: housetuya_extract_def housetuya_open_envelop_def and_then_def rd32_def word_be_def)

lemma extract_with_secret_not_negative:
  "housetuya_extract D bufsize (Some s) raw len = Inr r \<Longrightarrow> 0 \<le> ex_length r"
  by (auto simp add: housetuya_extract_def and_then_def extract_failed_def
           split: if_splits sum.splits option.splits prod.splits)


section \<open>The extended header of an inbound frame\<close>

lemma suffix_bytes: "(0x0000aa55 :: 32 word) = word_be [0, 0, 0xaa, 0x55]"
  by (simp add: word_be_def)

lemma word_be_first:
  assumes "word_be [a, b, c, d] = word_be [a', b', c', d']"
  shows "a = a'"
proof (rule bit_word_eqI)
  fix n assume "n < LENGTH(8)"
  then have n: "n < 8" by simp
  have "bit (word_be [a, b, c, d]) (n + 24) = bit (word_be [a', b', c', d']) (n + 24)"
    by (simp only: assms)
  with n show "bit a n = bit a' n" by (simp add: bit_word_be)
qed

lemma rd32_suffix_zero:
  assumes "rd32 buffer off = Inr 0x0000aa55"
  shows "0 \<le> off \<and> off + 4 \<le> int (length buffer) \<and> buffer ! nat off = 0"
proof -
  from assms have b: "0 \<le> off" "off + 4 \<le> int (length buffer)"
    and w: "word_be (take 4 (drop (nat off) buffer)) = 0x0000aa55"
    by (auto simp add: rd32_def split: if_splits)
  from b have "4 \<le> length (drop (nat off) buffer)" by simp
  from take4 [OF this] b
  have "take 4 (drop (nat off) buffer) =
          [buffer ! nat off, buffer ! (nat off + 1), buffer ! (nat off + 2), buffer ! (nat off + 3)]"
    by simp
  with w have "word_be [buffer ! nat off, buffer ! (nat off + 1), buffer ! (nat off + 2),
                  buffer ! (nat off + 3)] = word_be [0, 0, 0xaa, 0x55]"
    by (simp only: suffix_bytes)
  then have "buffer ! nat off = 0" by (rule word_be_first)
  with b show ?thesis by simp
qed

lemma payload_start_cases: "payload_start buffer = 16 \<or> payload_start buffer = 20"
  by (simp add: payload_start_def)

lemma example_control_cipher:
  "housetuya_encrypt example_cipher example_key (control_command (bytes_of ''bf12'') 1700000000 1 1) =
   [75, 19, 86, 86, 66, 124, 82, 21, 2, 27, 3, 4, 82, 86, 71, 74, 18, 68, 91,
    87, 22, 15, 20, 85, 94, 8, 83, 64, 79, 70, 17, 68, 10, 19, 3, 4, 4, 5, 6,
    7, 8, 9, 81, 82, 65, 72, 71, 2, 64, 66, 16, 9, 79, 23, 7, 21, 2, 77, 19,
    23, 6, 25, 24, 103]"
  unfolding example_control_command
  by (simp add: housetuya_encrypt_def evp_encrypt_def ecb_def pkcs7_pad_def blocks_numeral
        replicate_numeral example_cipher_def example_key_def bytes_of_def)

lemma example_version: "bytes_of ''3.3'' = [51, 46, 51]"
  by (simp add: bytes_of_def)

lemma example_header: "extended_header [51, 46, 51] = [51, 46, 51, 0, 0, 0, 0, 0, 0, 0, 0, 0, 0, 0, 0]"
  by (simp add: extended_header_def replicate_numeral)

lemma length_example_control_frame: "length example_control_frame = 103"
  by (simp add: example_control_frame_def encoded_control_def length_frame_of example_control_cipher
        length_extended_header)

lemma envelop_checks_frame:
  assumes small: "length body < 2000"
  shows "envelop_checks (frame_of sq cd body) (int (length (frame_of sq cd body)))"
proof -
  define w :: "32 word" where "w = word_of_int (int (length body) + 8)"
  have fr: "frame_of sq cd body = be32 0x000055aa @ be32 sq @ be32 cd @ be32 w
       @ body @ be32 (housetuya_crc body) @ be32 0x0000aa55"
    by (simp only: frame_of_def w_def)
  let ?f = "frame_of sq cd body"
  let ?len = "int (length (frame_of sq cd body))"
  have len: "?len = int (length body) + 24" by (simp add: length_frame_of)
  have r0: "rd32 ?f 0 = Inr 0x000055aa" by (simp add: fr rd32_0)
  have r12: "rd32 ?f 12 = Inr w" by (simp add: fr rd32_12)
  have "sint w = int (length body) + 8"
    unfolding w_def by (rule sint_small) (use small in simp_all)
  then have pl: "sint w = ?len - 16" by (simp add: len)
  have rs: "rd32 ?f (?len - 4) = Inr 0x0000aa55"
  proof -
    let ?a = "be32 0x000055aa @ be32 sq @ be32 cd @ be32 w
               @ body @ be32 (housetuya_crc body)"
    have "?f = ?a @ be32 0x0000aa55 @ []" by (simp add: fr)
    moreover have "?len - 4 = int (length ?a)" by (simp add: len length_be32)
    ultimately show ?thesis using rd32_at [of ?a "0x0000aa55" "[]"] by simp
  qed
  show ?thesis
    unfolding envelop_checks_def by (simp only: r0 r12 rs map_sum.simps pl simp_thms)
qed

lemma frame_drop16:
  "drop 16 (frame_of sq cd body) = body @ be32 (housetuya_crc body) @ be32 0x0000aa55"
  by (simp add: frame_of_def be32_def)

lemma example_control_start: "payload_start example_control_frame = 16"
  by (simp add: payload_start_def example_control_frame_def encoded_control_def frame_drop16
        example_version example_header word_be_def)

lemma example_control_header: "header_found (bytes_of ''3.3'') example_control_frame"
  by (simp add: header_found_def example_control_start)
     (simp add: example_control_frame_def encoded_control_def frame_drop16
        example_version example_header)

text \<open>
  C9, as stated, fails: the decoder looks for the header in the payload as it was
  received, before anything is decrypted, and removes it before it decrypts the rest.
  In the CONTROL frame of the example the header is found and 15 bytes are removed; the
  payload as a whole (79 bytes) does not decrypt, and the command that is decrypted does
  not start with the version.
\<close>

theorem extended_header_sniff_counterexample:
  "housetuya_open_envelop (Some (bytes_of ''3.3'')) example_control_frame 103 =
     Inr \<lparr>op_length = 64, op_data = 31, op_code = Some TUYA_CONTROL, op_sequence = Some 0\<rparr> \<and>
   \<not> spec_header_present example_cipher example_key (bytes_of ''3.3'') example_control_frame 103 \<and>
   take 15 (control_command (bytes_of ''bf12'') 1700000000 1 1) \<noteq> extended_header (bytes_of ''3.3'')"
proof -
  let ?c = "housetuya_encrypt example_cipher example_key
              (control_command (bytes_of ''bf12'') 1700000000 1 1)"
  let ?body = "extended_header (bytes_of ''3.3'') @ ?c"
  have lb: "length ?body = 79" by (simp add: example_control_cipher length_extended_header)
  have sniff: "(case Some (bytes_of ''3.3'') of None \<Rightarrow> Inr False
                | Some v \<Rightarrow> strcmp_eq v (drop 0
                    (?body @ be32 (housetuya_crc ?body) @ be32 0x0000aa55 @ [])))
               = Inr True"
    by (simp add: example_version example_header)
  have "housetuya_open_envelop (Some (bytes_of ''3.3'')) (frame_of 0 TUYA_CONTROL ?body @ [])
          (int (length (frame_of 0 TUYA_CONTROL ?body))) =
        Inr \<lparr>op_length = int (length ?body) - int 0 - (if True then 15 else 0),
             op_data = 16 + int 0 + (if True then 15 else 0),
             op_code = Some TUYA_CONTROL, op_sequence = Some 0\<rparr>"
    by (rule open_frame [OF _ _ _ sniff])
       (simp_all add: example_control_cipher example_version example_header word_be_def)
  then have opn: "housetuya_open_envelop (Some (bytes_of ''3.3'')) example_control_frame 103 =
     Inr \<lparr>op_length = 64, op_data = 31, op_code = Some TUYA_CONTROL, op_sequence = Some 0\<rparr>"
    using length_example_control_frame lb
    by (simp add: example_control_frame_def encoded_control_def)
  have "take (nat (103 - 16 - 8)) (drop (nat 16) example_control_frame) = ?body"
    using lb by (simp add: example_control_frame_def encoded_control_def frame_drop16)
  then have spec: "\<not> spec_header_present example_cipher example_key (bytes_of ''3.3'')
                      example_control_frame 103"
    using lb by (simp add: spec_header_present_def example_control_start evp_decrypt_def)
  have "take 15 (control_command (bytes_of ''bf12'') 1700000000 1 1) \<noteq>
          extended_header (bytes_of ''3.3'')"
    by (simp add: example_control_command example_version example_header)
  with opn spec show ?thesis by simp
qed


text \<open>
  C9, amended: for every inbound frame of 24 bytes at least that passes the checks of
  the prefix, the length and the suffix, decoded with a version string, the decoder
  strips 15 bytes exactly when the bytes received at the start of the payload (at offset
  16, or at 20 after a return code), not decrypted, are the characters of the version
  string and a NUL after them; otherwise the payload is passed on whole.
\<close>

theorem extended_header_sniff:
  assumes "envelop_checks buffer len" and "24 \<le> len" and "0 \<notin> set v"
  shows "\<exists>cd sq. housetuya_open_envelop (Some v) buffer len =
           Inr \<lparr>op_length = len - payload_start buffer - 8 - (if header_found v buffer then 15 else 0),
                op_data = payload_start buffer + (if header_found v buffer then 15 else 0),
                op_code = Some cd, op_sequence = Some sq\<rparr>"
proof -
  from assms(1) have r0: "rd32 buffer 0 = Inr 0x000055aa"
    and rs: "rd32 buffer (len - 4) = Inr 0x0000aa55"
    by (simp_all add: envelop_checks_def)
  from assms(1) obtain pl where r12: "rd32 buffer 12 = Inr pl" and pl: "sint pl = len - 16"
    by (cases "rd32 buffer 12") (auto simp add: envelop_checks_def)
  from rd32_suffix_zero [OF rs]
  have z0: "len \<le> int (length buffer)" and z2: "buffer ! nat (len - 4) = 0" by simp_all
  with assms(2) have long: "24 \<le> length buffer" and z1: "nat (len - 4) < length buffer"
    by linarith+
  note z = z1 z2
  define sq where "sq = word_be (take 4 (drop 4 buffer))"
  define cd where "cd = word_be (take 4 (drop 8 buffer))"
  have r4: "rd32 buffer 4 = Inr sq" and r8: "rd32 buffer 8 = Inr cd"
    using long by (simp_all add: rd32_def sq_def cd_def)
  have r16: "rd32 buffer 16 = Inr (word_be (take 4 (drop 16 buffer)))"
    using long by (simp add: rd32_def)
  define start where "start = payload_start buffer"
  have st: "start = 16 \<or> start = 20" using payload_start_cases by (simp add: start_def)
  have "nat start \<le> nat (len - 4)" using st assms(2) by auto
  then have "buffer ! nat (len - 4) \<in> set (drop (nat start) buffer)"
    using z(1) by (auto simp add: in_set_conv_nth intro!: exI [of _ "nat (len - 4) - nat start"])
  then have zero: "0 \<in> set (drop (nat start) buffer)" by (simp add: z(2))
  have cmp: "strcmp_eq v (drop (nat start) buffer) = Inr (header_found v buffer)"
    unfolding header_found_def start_def [symmetric]
    by (rule strcmp_eq_prefix [OF assms(3) zero])
  have "housetuya_open_envelop (Some v) buffer len =
           Inr \<lparr>op_length = len - start - 8 - (if header_found v buffer then 15 else 0),
                op_data = start + (if header_found v buffer then 15 else 0),
                op_code = Some cd, op_sequence = Some sq\<rparr>"
  proof (cases "word_be (take 4 (drop 16 buffer)) AND 0xffffff00 \<noteq> 0")
    case True
    then have s16: "start = 16" by (simp add: start_def payload_start_def)
    from True have rc: "(word_be (take 4 (drop 16 buffer)) AND 0xffffff00 = 0) = False" by simp
    have cmp': "strcmp_eq v (drop (nat 16) buffer) = Inr (header_found v buffer)"
      using cmp by (simp only: s16)
    show ?thesis
      apply (simp only: housetuya_open_envelop_def r0 r4 r8 r12 rs r16 and_then_Inr pl rc cmp'
               simp_thms if_True if_False Let_def prod.case option.case)
      apply (simp add: s16)
      done
  next
    case False
    then have s20: "start = 20" by (simp add: start_def payload_start_def)
    from False have rc: "(word_be (take 4 (drop 16 buffer)) AND 0xffffff00 = 0) = True" by simp
    have cmp': "strcmp_eq v (drop (nat 20) buffer) = Inr (header_found v buffer)"
      using cmp by (simp only: s20)
    show ?thesis
      apply (simp only: housetuya_open_envelop_def r0 r4 r8 r12 rs r16 and_then_Inr pl rc cmp'
               simp_thms if_True if_False Let_def prod.case option.case)
      apply (simp add: s20)
      done
  qed
  then show ?thesis by (auto simp add: start_def)
qed


theorem extended_header_sniff_witness:
  "envelop_checks example_control_frame 103 \<and> (24::int) \<le> 103 \<and> 0 \<notin> set (bytes_of ''3.3'') \<and>
   header_found (bytes_of ''3.3'') example_control_frame \<and>
   (\<exists>cd sq. housetuya_open_envelop (Some (bytes_of ''3.3'')) example_control_frame 103 =
       Inr \<lparr>op_length = 64, op_data = 31, op_code = Some cd, op_sequence = Some sq\<rparr>)"
proof -
  have e: "envelop_checks example_control_frame 103"
    using envelop_checks_frame [of "extended_header (bytes_of ''3.3'') @
        housetuya_encrypt example_cipher example_key
          (control_command (bytes_of ''bf12'') 1700000000 1 1)" 0 TUYA_CONTROL]
      length_example_control_frame
    by (simp add: example_control_frame_def encoded_control_def example_control_cipher
          length_extended_header)
  have z: "0 \<notin> set (bytes_of ''3.3'')" by (simp add: example_version)
  from extended_header_sniff [OF e _ z] e z example_control_header
  show ?thesis by (simp add: example_control_start)
qed


section \<open>What the steps of the sweep leave alone\<close>

lemma close_fields:
  "housetuya_device_close d tr = (d', tr') \<Longrightarrow>
     detected d' = detected d \<and> deadline d' = deadline d \<and> pending d' = pending d \<and>
     commanded d' = commanded d \<and> status d' = status d \<and> name d' = name d \<and>
     ipaddress d' = ipaddress d \<and> last_sense d' = last_sense d"
  by (auto simp: housetuya_device_close_def split: if_splits)

lemma preamble_fields:
  "housetuya_device_preamble e d tr = (ok, d', tr') \<Longrightarrow>
     detected d' = detected d \<and> deadline d' = deadline d \<and> pending d' = pending d \<and>
     commanded d' = commanded d \<and> status d' = status d \<and> name d' = name d"
  by (auto simp: housetuya_device_preamble_def housetuya_device_close_def Let_def
           split: if_splits prod.splits)

lemma control_fields:
  "housetuya_device_control e d s tr = (d', tr') \<Longrightarrow>
     detected d' = detected d \<and> deadline d' = deadline d \<and> pending d' = pending d \<and>
     commanded d' = commanded d \<and> status d' = status d \<and> name d' = name d"
  by (auto simp: housetuya_device_control_def split: prod.splits bool.splits dest: preamble_fields)

lemma sense_fields:
  "housetuya_device_sense e d tr = (d', tr') \<Longrightarrow>
     detected d' = detected d \<and> deadline d' = deadline d \<and> pending d' = pending d \<and>
     commanded d' = commanded d \<and> status d' = status d \<and> name d' = name d"
  by (auto simp: housetuya_device_sense_def split: prod.splits bool.splits dest: preamble_fields)

lemma visit_sense_fields:
  "visit_sense e now d tr = (d', tr') \<Longrightarrow>
     detected d' = detected d \<and> deadline d' = deadline d \<and> pending d' = pending d \<and>
     commanded d' = commanded d \<and> status d' = status d \<and> name d' = name d"
  by (auto simp: visit_sense_def Let_def split: prod.splits if_splits
           dest!: sense_fields close_fields)

lemma visit_pulse_fire:
  "deadline d > 0 \<Longrightarrow> now \<ge> deadline d \<Longrightarrow>
   visit_pulse now d tr =
     (d\<lparr>commanded := 0, pending := now + 5, deadline := 0\<rparr>, tr @ [Event (name d) ''RESET''])"
  by (simp add: visit_pulse_def)

lemma visit_retry_pulse_fields:
  "pending d = now + 5 \<Longrightarrow> visit_retry e now d tr = (d', tr') \<Longrightarrow>
     deadline d' = deadline d \<and> pending d' = pending d \<and> commanded d' = commanded d"
  by (auto simp: visit_retry_def split: if_splits dest: control_fields)

section \<open>The end of a pulse\<close>

text \<open>
  C5, as stated, fails: a device that is found silent in the same visit is reset before
  the end of its pulse is looked at, and its \<open>pending\<close> is 0 afterwards. Here the lamp
  was detected at 1000 and its pulse ends at 1150; the sweep visits it at 1200.
\<close>

theorem pulse_expiry_counterexample:
  "deadline lamp > 0 \<and> 1200 \<ge> deadline lamp \<and>
   pending (fst (periodic_visit example_env 1200 lamp [])) \<noteq> 1200 + 5"
  by (simp add: periodic_visit_def visit_sense_def visit_silent_def visit_pulse_def
        visit_retry_def housetuya_device_close_def housetuya_device_reset_def lamp_def)

text \<open>
  C5, amended: when the sweep visits a device with \<open>deadline > 0\<close> and \<open>now \<ge> deadline\<close>,
  and the device is not declared silent in that visit (not \<open>0 < detected < now - 100\<close>),
  the device has afterwards \<open>commanded = 0\<close>, \<open>deadline = 0\<close> and \<open>pending = now + 5\<close>.
\<close>

theorem pulse_expiry:
  assumes "deadline d > 0" and "now \<ge> deadline d"
    and "\<not> (detected d > 0 \<and> detected d < now - 100)"
  shows "commanded (fst (periodic_visit e now d tr)) = 0 \<and>
         deadline (fst (periodic_visit e now d tr)) = 0 \<and>
         pending (fst (periodic_visit e now d tr)) = now + 5"
proof -
  obtain d1 tr1 where s1: "visit_sense e now d tr = (d1, tr1)"
    by (cases "visit_sense e now d tr")
  from visit_sense_fields [OF s1] assms
  have f1: "deadline d1 > 0" "now \<ge> deadline d1"
    "\<not> (detected d1 > 0 \<and> detected d1 < now - 100)"
    by auto
  have s2: "visit_silent now d1 tr1 = (d1, tr1)"
    using f1(3) by (auto simp add: visit_silent_def)
  let ?d3 = "d1\<lparr>commanded := 0, pending := now + 5, deadline := 0\<rparr>"
  let ?tr3 = "tr1 @ [Event (name d1) ''RESET'']"
  have s3: "visit_pulse now d1 tr1 = (?d3, ?tr3)"
    using f1(1,2) by (rule visit_pulse_fire)
  obtain d4 tr4 where s4: "visit_retry e now ?d3 ?tr3 = (d4, tr4)"
    by (cases "visit_retry e now ?d3 ?tr3")
  have "pending ?d3 = now + 5" by simp
  from visit_retry_pulse_fields [OF this s4]
  have "deadline d4 = 0 \<and> pending d4 = now + 5 \<and> commanded d4 = 0" by simp
  moreover have "periodic_visit e now d tr = (d4, tr4)"
    by (simp add: periodic_visit_def s1 s2 s3 s4)
  ultimately show ?thesis by simp
qed

theorem pulse_expiry_witness:
  "deadline (lamp\<lparr>detected := 1150\<rparr>) > 0 \<and> 1200 \<ge> deadline (lamp\<lparr>detected := 1150\<rparr>) \<and>
   \<not> (detected (lamp\<lparr>detected := 1150\<rparr>) > 0 \<and> detected (lamp\<lparr>detected := 1150\<rparr>) < 1200 - 100) \<and>
   commanded (fst (periodic_visit example_env 1200 (lamp\<lparr>detected := 1150\<rparr>) [])) = 0 \<and>
   deadline (fst (periodic_visit example_env 1200 (lamp\<lparr>detected := 1150\<rparr>) [])) = 0 \<and>
   pending (fst (periodic_visit example_env 1200 (lamp\<lparr>detected := 1150\<rparr>) [])) = 1200 + 5"
  using pulse_expiry [of "lamp\<lparr>detected := 1150\<rparr>" 1200 example_env "[]"]
  by (simp add: lamp_def)

section \<open>A set while a command is pending\<close>

text \<open>
  C6: for a valid device index whose \<open>pending\<close> is not 0, \<^verbatim>\<open>housetuya_device_set\<close> sets
  \<open>commanded\<close> to the state and \<open>deadline\<close> to \<open>now + pulse\<close> (0 when \<open>pulse \<le> 0\<close>), and
  leaves \<open>pending\<close>, the socket and the staged frame as they were: the only call to
  the outside is the event SET, no connection is opened.
\<close>

theorem set_while_pending:
  assumes "0 \<le> device" and "device < DevicesCount w"
    and "pending (Devices w ! nat device) \<noteq> 0"
  shows "\<exists>w'. housetuya_device_set e now w device state pulse = Inr (1, w') \<and>
           commanded (Devices w' ! nat device) = state \<and>
           deadline (Devices w' ! nat device) = (if pulse > 0 then now + pulse else 0) \<and>
           pending (Devices w' ! nat device) = pending (Devices w ! nat device) \<and>
           socket (Devices w' ! nat device) = socket (Devices w ! nat device) \<and>
           out (Devices w' ! nat device) = out (Devices w ! nat device) \<and>
           outlength (Devices w' ! nat device) = outlength (Devices w ! nat device) \<and>
           trace w' = trace w @ [Event (name (Devices w ! nat device)) ''SET'']"
  using assms
  by (auto simp: housetuya_device_set_def row_def set_on_row_def set_row_def DevicesCount_def
                 Let_def)

theorem set_while_pending_witness:
  "(0::int) \<le> 0 \<and> 0 < DevicesCount (example_world\<lparr>Devices := [lamp\<lparr>pending := 1205\<rparr>]\<rparr>) \<and>
   pending (Devices (example_world\<lparr>Devices := [lamp\<lparr>pending := 1205\<rparr>]\<rparr>) ! nat 0) \<noteq> 0 \<and>
   (\<exists>w'. housetuya_device_set example_env 1201
            (example_world\<lparr>Devices := [lamp\<lparr>pending := 1205\<rparr>]\<rparr>) 0 0 30 = Inr (1, w') \<and>
         commanded (Devices w' ! nat 0) = 0 \<and> deadline (Devices w' ! nat 0) = 1231 \<and>
         pending (Devices w' ! nat 0) = 1205 \<and> socket (Devices w' ! nat 0) = - 1 \<and>
         out (Devices w' ! nat 0) = [] \<and> outlength (Devices w' ! nat 0) = 0 \<and>
         trace w' = [Event ''lamp'' ''SET''])"
  using set_while_pending
    [of 0 "example_world\<lparr>Devices := [lamp\<lparr>pending := 1205\<rparr>]\<rparr>" example_env 1201 0 30]
  by (simp add: example_world_def lamp_def DevicesCount_def)

section \<open>The status update\<close>

text \<open>
  C7: for a valid device index, \<^verbatim>\<open>housetuya_device_status_update\<close> sets \<open>status\<close> to the
  value observed and \<open>detected\<close> to the current time, in every call. When the value
  differs from the former \<open>status\<close>, \<open>pending\<close> is cleared, and either \<open>pending\<close> was
  not 0 and the value is the one commanded (\<open>commanded\<close> is unchanged, the event is
  CONFIRMED), or \<open>commanded\<close> is set to the value (the event is CHANGED).
\<close>

theorem status_update:
  assumes "0 \<le> device" and "device < DevicesCount w"
  shows "\<exists>w'. housetuya_device_status_update w device st now = Inr w' \<and>
           status (Devices w' ! nat device) = st \<and>
           detected (Devices w' ! nat device) = now \<and>
           (st \<noteq> status (Devices w ! nat device) \<longrightarrow>
              pending (Devices w' ! nat device) = 0 \<and>
              (if pending (Devices w ! nat device) \<noteq> 0 \<and> st = commanded (Devices w ! nat device)
               then commanded (Devices w' ! nat device) = commanded (Devices w ! nat device) \<and>
                    trace w' = trace w @ [Event (name (Devices w ! nat device)) ''CONFIRMED'']
               else commanded (Devices w' ! nat device) = st \<and>
                    trace w' = trace w @ [Event (name (Devices w ! nat device)) ''CHANGED'']))"
  using assms
  by (auto simp: housetuya_device_status_update_def row_def status_update_row_def set_row_def
                 DevicesCount_def Let_def)

theorem status_update_witness:
  "(0::int) \<le> 0 \<and> 0 < DevicesCount example_world \<and>
   (\<exists>w'. housetuya_device_status_update example_world 0 0 1201 = Inr w' \<and>
         status (Devices w' ! nat 0) = 0 \<and> detected (Devices w' ! nat 0) = 1201 \<and>
         ((0::int) \<noteq> status (Devices example_world ! nat 0) \<longrightarrow>
            pending (Devices w' ! nat 0) = 0 \<and> commanded (Devices w' ! nat 0) = 0 \<and>
            trace w' = [Event ''lamp'' ''CHANGED'']))"
  using status_update [of 0 example_world 0 1201]
  by (simp add: example_world_def lamp_def DevicesCount_def)

section \<open>The accessors at the first index past the table\<close>

text \<open>
  C10 does not hold of the code: at \<open>point = housetuya_device_count ()\<close>, which is out of
  range, the guard \<^verbatim>\<open>point > DevicesCount\<close> of each of the five accessors lets the call
  through, and the row \<^verbatim>\<open>Devices[DevicesCount]\<close> is read.
\<close>

theorem accessors_at_count:
  "housetuya_device_name w (housetuya_device_count w)
     = Inl (Row_out_of_range (housetuya_device_count w)) \<and>
   housetuya_device_commanded w (housetuya_device_count w)
     = Inl (Row_out_of_range (housetuya_device_count w)) \<and>
   housetuya_device_deadline w (housetuya_device_count w)
     = Inl (Row_out_of_range (housetuya_device_count w)) \<and>
   housetuya_device_failure w (housetuya_device_count w)
     = Inl (Row_out_of_range (housetuya_device_count w)) \<and>
   housetuya_device_get w (housetuya_device_count w)
     = Inl (Row_out_of_range (housetuya_device_count w))"
  by (simp add: housetuya_device_name_def housetuya_device_commanded_def
        housetuya_device_deadline_def housetuya_device_failure_def housetuya_device_get_def
        housetuya_device_count_def row_def DevicesCount_def)

end
